theory Spec2Isabelle
  imports Complex_Main
begin

section \<open>JavaScript values\<close>

text \<open>
  The bridge handles two kinds of untyped data: the raw events of the vendor library
  (\<open>zca-js\<close>) and the commands that \<open>JSON.parse\<close> returns. Both are JavaScript values
  without functions. A number is a double; its precision is not modelled: a finite
  number is an exact rational, and \<open>+0\<close> and \<open>-0\<close> are the same value.
  An object is an association list in which the first binding of a key is the one read.
\<close>

datatype jsnum = NaN | Fin rat | PosInf | NegInf

datatype jsval =
    JUndefined
  | JNull
  | JBool bool
  | JNum jsnum
  | JStr string
  | JArr "jsval list"
  | JObj "(string \<times> jsval) list"

text \<open>
  What the code can throw, with the text of the runtime (V8) where the runtime
  throws. \<open>NotLoggedIn\<close> is \<open>new Error("Not logged in to Zalo")\<close>;
  a \<open>VendorError\<close> is whatever a call of the vendor library rejects with, kept as the
  text \<open>String(error)\<close> gives.
\<close>

datatype js_error =
    SyntaxError string
  | TypeError string
  | NotLoggedIn
  | VendorError string

text \<open>\<open>String(error)\<close>, as the server puts it into its events.\<close>

fun error_string :: "js_error \<Rightarrow> string" where
  "error_string (SyntaxError m) = ''SyntaxError: '' @ m"
| "error_string (TypeError m) = ''TypeError: '' @ m"
| "error_string NotLoggedIn = ''Error: Not logged in to Zalo''"
| "error_string (VendorError m) = m"

text \<open>
  \<open>v.p\<close>: reading a property of \<open>undefined\<close> or \<open>null\<close> throws a TypeError; a plain
  object gives the bound value or \<open>undefined\<close>. The code reads only the names
  \<open>data\<close>, \<open>threadId\<close>, \<open>type\<close>, \<open>content\<close>, \<open>uidFrom\<close>, \<open>msgId\<close>, \<open>ts\<close>, \<open>href\<close>, \<open>to\<close>,
  \<open>text\<close>, \<open>cookie\<close>, \<open>imei\<close> and \<open>userAgent\<close>, none of which a string, a number, a boolean
  or an array has, so these give \<open>undefined\<close>.
\<close>

fun get_prop :: "jsval \<Rightarrow> string \<Rightarrow> js_error + jsval" where
  "get_prop JUndefined p =
     Inl (TypeError (''Cannot read properties of undefined (reading '' @ [CHR 0x27] @ p @ [CHR 0x27] @ '')''))"
| "get_prop JNull p =
     Inl (TypeError (''Cannot read properties of null (reading '' @ [CHR 0x27] @ p @ [CHR 0x27] @ '')''))"
| "get_prop (JObj kvs) p = Inr (case map_of kvs p of None \<Rightarrow> JUndefined | Some v \<Rightarrow> v)"
| "get_prop v p = Inr JUndefined"

text \<open>\<open>v?.p\<close>: \<open>undefined\<close> when \<open>v\<close> is \<open>undefined\<close> or \<open>null\<close>, never an error.\<close>

definition opt_chain :: "jsval \<Rightarrow> string \<Rightarrow> jsval" where
  "opt_chain v p = (case get_prop v p of Inl e \<Rightarrow> JUndefined | Inr x \<Rightarrow> x)"

text \<open>
  \<open>threadId.slice(0, 8)\<close>: strings and arrays have the method; on every other value the
  call throws a TypeError (a value read from JSON is never a function, so an object with
  a \<open>slice\<close> of its own has none to call either). The texts are those of the runtime.
\<close>

fun slice_call :: "jsval \<Rightarrow> js_error + jsval" where
  "slice_call (JStr s) = Inr (JStr (take 8 s))"
| "slice_call (JArr xs) = Inr (JArr (take 8 xs))"
| "slice_call JUndefined = Inl (TypeError ''Cannot read properties of undefined (reading 'slice')'')"
| "slice_call JNull = Inl (TypeError ''Cannot read properties of null (reading 'slice')'')"
| "slice_call v = Inl (TypeError ''threadId.slice is not a function'')"

text \<open>
  The conversion of a value to a primitive, which a template literal and \<open>Number\<close>
  perform on an object, calls the object's \<open>toString\<close> and \<open>valueOf\<close>. A plain object
  inherits both, unless it has a property \<open>toString\<close> of its own: that is not a function,
  the inherited \<open>valueOf\<close> returns the object itself, and the conversion throws a
  TypeError. An array converts by joining the texts of its elements (\<open>undefined\<close> and
  \<open>null\<close> give the empty text), so it throws when an element does.
\<close>

fun converts :: "jsval \<Rightarrow> bool" where
  "converts (JObj kvs) = (map_of kvs ''toString'' = None)"
| "converts (JArr xs) = list_all converts xs"
| "converts v = True"

text \<open>A value inside a template literal; only whether it throws matters, the text is logged.\<close>

definition template_value :: "jsval \<Rightarrow> js_error + unit" where
  "template_value v =
     (if converts v then Inr () else Inl (TypeError ''Cannot convert object to primitive value''))"

subsection \<open>\<open>Number(v)\<close>\<close>

text \<open>
  The conversion of a string follows the grammar \<open>StringNumericLiteral\<close> of ECMAScript:
  white space around an optional literal, which is a signed decimal literal (digits
  with an optional fraction and exponent, or \<open>Infinity\<close>) or an unsigned binary, octal or
  hexadecimal integer. A string is a list of bytes here, so only the ASCII white space
  characters are recognised, and the value is the exact one. The runtime rounds to a
  double, so it differs where the rounding shows: \<open>"1e-400"\<close> is zero there,
  \<open>"1e400"\<close> is \<open>Infinity\<close>, \<open>"9007199254740993"\<close> is \<open>9007199254740992\<close>, and a string with the
  white space \<open>U+00A0\<close> around its digits is a number. Nothing proved below rests on
  these cases: the theorems about timestamps hold whatever \<open>Number\<close> gives on a string,
  and the examples use only \<open>"0"\<close> and \<open>"1700000000000"\<close>.
\<close>

definition is_space :: "char \<Rightarrow> bool" where
  "is_space c = ((of_char c :: int) \<in> {9, 10, 11, 12, 13, 32})"

definition trim :: "string \<Rightarrow> string" where
  "trim s = rev (dropWhile is_space (rev (dropWhile is_space s)))"

definition digit_of :: "int \<Rightarrow> char \<Rightarrow> int option" where
  "digit_of base c =
     (let n = (of_char c :: int);
          d = (if 48 \<le> n \<and> n \<le> 57 then Some (n - 48)
               else if 97 \<le> n \<and> n \<le> 102 then Some (n - 87)
               else if 65 \<le> n \<and> n \<le> 70 then Some (n - 55)
               else None)
      in case d of None \<Rightarrow> None | Some k \<Rightarrow> if k < base then Some k else None)"

definition is_digit :: "char \<Rightarrow> bool" where
  "is_digit c = (digit_of 10 c \<noteq> None)"

text \<open>The value of a non-empty string of digits of the base; \<open>None\<close> otherwise.\<close>

fun digits_acc :: "int \<Rightarrow> int \<Rightarrow> string \<Rightarrow> int option" where
  "digits_acc base acc [] = Some acc"
| "digits_acc base acc (c # cs) =
     (case digit_of base c of
        None \<Rightarrow> None
      | Some d \<Rightarrow> digits_acc base (acc * base + d) cs)"

definition digits_value :: "int \<Rightarrow> string \<Rightarrow> int option" where
  "digits_value base s = (if s = [] then None else digits_acc base 0 s)"

text \<open>\<open>ExponentPart\<close>, or nothing: the exponent, \<open>None\<close> when the text is neither.\<close>

definition exponent_part :: "string \<Rightarrow> int option" where
  "exponent_part s =
     (case s of
        [] \<Rightarrow> Some 0
      | c # r \<Rightarrow>
          if c = CHR ''e'' \<or> c = CHR ''E'' then
            (case r of
               [] \<Rightarrow> None
             | d # r' \<Rightarrow>
                 if d = CHR ''-'' then map_option uminus (digits_value 10 r')
                 else if d = CHR ''+'' then digits_value 10 r'
                 else digits_value 10 r)
          else None)"

definition pow10 :: "int \<Rightarrow> rat" where
  "pow10 e = (if 0 \<le> e then 10 ^ nat e else 1 / 10 ^ nat (- e))"

text \<open>\<open>StrUnsignedDecimalLiteral\<close>.\<close>

definition unsigned_decimal :: "string \<Rightarrow> jsnum" where
  "unsigned_decimal s =
     (if s = ''Infinity'' then PosInf
      else
        let ip = takeWhile is_digit s;
            r1 = dropWhile is_digit s;
            fp = (case r1 of [] \<Rightarrow> [] | c # r \<Rightarrow> if c = CHR ''.'' then takeWhile is_digit r else []);
            r2 = (case r1 of [] \<Rightarrow> [] | c # r \<Rightarrow> if c = CHR ''.'' then dropWhile is_digit r else r1)
        in if ip = [] \<and> fp = [] then NaN
           else
             (case (digits_value 10 (CHR ''0'' # ip @ fp), exponent_part r2) of
                (Some m, Some e) \<Rightarrow> Fin (rat_of_int m * pow10 (e - int (length fp)))
              | _ \<Rightarrow> NaN))"

definition negate :: "jsnum \<Rightarrow> jsnum" where
  "negate n = (case n of NaN \<Rightarrow> NaN | Fin q \<Rightarrow> Fin (- q) | PosInf \<Rightarrow> NegInf | NegInf \<Rightarrow> PosInf)"

definition radix_literal :: "int \<Rightarrow> string \<Rightarrow> jsnum" where
  "radix_literal base s = (case digits_value base s of None \<Rightarrow> NaN | Some n \<Rightarrow> Fin (rat_of_int n))"

definition StringToNumber :: "string \<Rightarrow> jsnum" where
  "StringToNumber str =
     (case trim str of
        [] \<Rightarrow> Fin 0
      | c # r \<Rightarrow>
          if c = CHR ''-'' then negate (unsigned_decimal r)
          else if c = CHR ''+'' then unsigned_decimal r
          else if c = CHR ''0'' \<and> r \<noteq> [] \<and> hd r \<in> {CHR ''x'', CHR ''X''} then radix_literal 16 (tl r)
          else if c = CHR ''0'' \<and> r \<noteq> [] \<and> hd r \<in> {CHR ''o'', CHR ''O''} then radix_literal 8 (tl r)
          else if c = CHR ''0'' \<and> r \<noteq> [] \<and> hd r \<in> {CHR ''b'', CHR ''B''} then radix_literal 2 (tl r)
          else unsigned_decimal (c # r))"

text \<open>
  The number \<open>Number(v)\<close> gives when the conversion of \<open>v\<close> to a primitive does not throw.
  A plain object converts through the text \<open>[object Object]\<close> to NaN. An
  array converts through its text: the empty array gives the empty string, an array of
  one element the text of that element (empty for \<open>undefined\<close> and \<open>null\<close>, and a number
  reads back from its own text as itself), and the text of a longer array has a comma,
  which no numeric literal has.
\<close>

fun ToNumber :: "jsval \<Rightarrow> jsnum" where
  "ToNumber JUndefined = NaN"
| "ToNumber JNull = Fin 0"
| "ToNumber (JBool b) = Fin (if b then 1 else 0)"
| "ToNumber (JNum n) = n"
| "ToNumber (JStr s) = StringToNumber s"
| "ToNumber (JObj kvs) = NaN"
| "ToNumber (JArr []) = Fin 0"
| "ToNumber (JArr [JUndefined]) = Fin 0"
| "ToNumber (JArr [JNull]) = Fin 0"
| "ToNumber (JArr [JBool b]) = NaN"
| "ToNumber (JArr [JNum n]) = n"
| "ToNumber (JArr [JStr s]) = StringToNumber s"
| "ToNumber (JArr [JObj kvs]) = NaN"
| "ToNumber (JArr [JArr xs]) = ToNumber (JArr xs)"
| "ToNumber (JArr (x # y # zs)) = NaN"

text \<open>\<open>Number(v)\<close>.\<close>

definition Number_call :: "jsval \<Rightarrow> js_error + jsnum" where
  "Number_call v =
     (if converts v then Inr (ToNumber v)
      else Inl (TypeError ''Cannot convert object to primitive value''))"

text \<open>The values \<open>||\<close> skips: of the numbers, NaN and zero.\<close>

definition falsy_num :: "jsnum \<Rightarrow> bool" where
  "falsy_num n = (n = NaN \<or> n = Fin 0)"

section \<open>The session adapter (\<open>zalo.ts\<close>)\<close>

text \<open>
  \<open>InboundMessage\<close> as the handler builds it. The interface declares \<open>senderId\<close>,
  \<open>threadId\<close> and \<open>messageId\<close> as strings and the link of an attachment as a string, but
  the handler copies them from the raw event unchecked, so at run time they are
  arbitrary values.
\<close>

datatype content = Text string | Attachment jsval

record InboundMessage =
  senderId :: jsval
  threadId :: jsval
  content :: content
  messageId :: jsval
  timestamp :: jsnum
  isGroup :: bool

text \<open>
  \<open>ThreadType.Group\<close> of the vendor library, whose enumeration is
  \<open>User = 0, Group = 1\<close>.
\<close>

definition ThreadType_Group :: jsval where
  "ThreadType_Group = JNum (Fin 1)"

text \<open>\<open>Number(message.data?.ts) || Date.now()\<close>, with \<open>Date.now()\<close> as \<open>now\<close>.\<close>

definition timestamp_of :: "int \<Rightarrow> jsval \<Rightarrow> js_error + jsnum" where
  "timestamp_of now ts =
     (case Number_call ts of
        Inl e \<Rightarrow> Inl e
      | Inr n \<Rightarrow> Inr (if falsy_num n then Fin (rat_of_int now) else n))"

text \<open>
  The classification of \<open>message.data.content\<close>: a string is kept; otherwise the link
  is read (which throws on \<open>undefined\<close> and \<open>null\<close>) and compared with \<open>null\<close> by \<open>!==\<close>;
  \<open>Inr None\<close> is the \<open>return\<close> of the last branch.
\<close>

definition classify_content :: "jsval \<Rightarrow> js_error + content option" where
  "classify_content c =
     (case c of
        JStr s \<Rightarrow> Inr (Some (Text s))
      | _ \<Rightarrow>
          (case get_prop c ''href'' of
             Inl e \<Rightarrow> Inl e
           | Inr h \<Rightarrow> if h \<noteq> JNull then Inr (Some (Attachment h)) else Inr None))"

text \<open>
  The body of the \<open>try\<close> block of the \<open>message\<close> handler of \<open>setupMessageListener\<close>,
  statement by statement: \<open>Inl\<close> is an exception, \<open>Inr None\<close> the early return, and
  \<open>Inr (Some m)\<close> the call \<open>this.onMessage(m)\<close>. The first statement logs
  \<open>message.data.content\<close>, and the last but one logs the sender and
  \<open>threadId.slice(0, 8)\<close> in a template literal; both can throw, as \<open>Number\<close> can.
\<close>

definition message_body :: "int \<Rightarrow> jsval \<Rightarrow> js_error + InboundMessage option" where
  "message_body now message =
     (case get_prop message ''data'' of
        Inl e \<Rightarrow> Inl e
      | Inr d \<Rightarrow>
     (case get_prop d ''content'' of
        Inl e \<Rightarrow> Inl e
      | Inr c \<Rightarrow>
     (case get_prop message ''threadId'' of
        Inl e \<Rightarrow> Inl e
      | Inr tid \<Rightarrow>
     (case timestamp_of now (opt_chain d ''ts'') of
        Inl e \<Rightarrow> Inl e
      | Inr ts \<Rightarrow>
     (case get_prop message ''type'' of
        Inl e \<Rightarrow> Inl e
      | Inr ty \<Rightarrow>
     (case classify_content c of
        Inl e \<Rightarrow> Inl e
      | Inr None \<Rightarrow> Inr None
      | Inr (Some ct) \<Rightarrow>
     (case template_value (opt_chain d ''uidFrom'') of
        Inl e \<Rightarrow> Inl e
      | Inr u \<Rightarrow>
     (case slice_call tid of
        Inl e \<Rightarrow> Inl e
      | Inr sl \<Rightarrow>
     (case template_value sl of
        Inl e \<Rightarrow> Inl e
      | Inr u \<Rightarrow>
          Inr (Some \<lparr> senderId = opt_chain d ''uidFrom'',
                      threadId = tid,
                      content = ct,
                      messageId = opt_chain d ''msgId'',
                      timestamp = ts,
                      isGroup = (ty = ThreadType_Group) \<rparr>))))))))))"

text \<open>
  The handler with its \<open>try\<close>/\<open>catch\<close>: the exception it lets escape (the \<open>catch\<close> block
  only logs, so there is none) and the calls of \<open>onMessage\<close> it makes, in order.
\<close>

definition message_handler :: "int \<Rightarrow> jsval \<Rightarrow> js_error option \<times> InboundMessage list" where
  "message_handler now message =
     (case message_body now message of
        Inl e \<Rightarrow> (None, [])
      | Inr None \<Rightarrow> (None, [])
      | Inr (Some m) \<Rightarrow> (None, [m]))"

subsection \<open>State, vendor calls and callbacks\<close>

text \<open>
  The adapter holds the vendor's \<open>Zalo\<close> instance (here the options it was built with)
  and, after a login, the vendor's \<open>API\<close> object (here a handle). Every \<open>API\<close> object of
  the vendor library has a \<open>listener\<close>, so the test \<open>this.api && this.api.listener\<close> of
  \<open>disconnect\<close> is the test that the handle is held.
\<close>

type_synonym api = nat

type_synonym ws = nat

record zalo_options =
  selfListen :: bool
  checkUpdate :: bool
  logging :: bool

record Credentials =
  cookie :: jsval
  imei :: jsval
  userAgent :: jsval

record ZaloClient =
  zalo :: "zalo_options option"
  api :: "api option"

text \<open>
  How an awaited call of the vendor library settles: the library is outside the
  repository, so the outcome is an input of the model. A rejection carries the text
  of what the vendor threw. The synchronous calls
  \<open>listener.on\<close>, \<open>listener.start\<close> and \<open>listener.stop\<close>, and \<open>ws.send\<close> on the server
  side, are taken to return normally.
\<close>

datatype reply = Resolve api | Reject string

text \<open>The events the server sends to its clients.\<close>

datatype BridgeMessage =
    MessageEvent InboundMessage
  | StatusEvent string
  | LoginEvent bool "string option"
  | ErrorEvent string

text \<open>
  What a handler does to the outside, in order: calls of the vendor library, calls of
  the two callbacks, and on the server side the construction and the disconnection of
  an adapter and the frames sent to clients.
\<close>

datatype effect =
    VendorLogin Credentials
  | ListenerOn api string
  | ListenerStart api
  | ListenerStop api
  | VendorSendMessage api jsval jsval jsval
  | VendorSendTypingEvent api jsval
  | OnStatus string
  | OnMessage InboundMessage
  | NewZaloClient
  | Disconnect
  | WsSend ws BridgeMessage

definition new_ZaloClient :: ZaloClient where
  "new_ZaloClient = \<lparr> zalo = None, api = None \<rparr>"

definition setupMessageListener :: "ZaloClient \<Rightarrow> effect list" where
  "setupMessageListener a =
     (case api a of
        None \<Rightarrow> []
      | Some h \<Rightarrow> [ListenerOn h ''message'', ListenerOn h ''error''])"

text \<open>
  \<open>login\<close>: the new state, the effects and the result. When the vendor rejects, the
  assignment to \<open>this.api\<close> does not happen, so a handle held from an earlier login stays.
\<close>

definition login :: "ZaloClient \<Rightarrow> Credentials \<Rightarrow> reply \<Rightarrow> ZaloClient \<times> effect list \<times> (js_error + unit)" where
  "login a credentials r =
     (let a1 = a\<lparr> zalo := Some \<lparr> selfListen = False, checkUpdate = False, logging = True \<rparr> \<rparr>
      in case r of
           Resolve h \<Rightarrow>
             (let a2 = a1\<lparr> api := Some h \<rparr>
              in (a2,
                  [VendorLogin credentials, OnStatus ''connected'']
                    @ setupMessageListener a2 @ [ListenerStart h],
                  Inr ()))
         | Reject e \<Rightarrow>
             (a1, [VendorLogin credentials, OnStatus ''disconnected''], Inl (VendorError e)))"

text \<open>
  \<open>sendMessage(threadId, text, type)\<close>: the state does not change. The \<open>try\<close> block
  logs \<open>threadId.slice(0, 8)\<close> in a template literal before it calls the vendor, and the
  \<open>catch\<close> block throws again what it caught.
\<close>

definition sendMessage :: "ZaloClient \<Rightarrow> jsval \<Rightarrow> jsval \<Rightarrow> jsval \<Rightarrow> reply \<Rightarrow> effect list \<times> (js_error + unit)" where
  "sendMessage a thread txt ty r =
     (case api a of
        None \<Rightarrow> ([], Inl NotLoggedIn)
      | Some h \<Rightarrow>
          (case slice_call thread of
             Inl e \<Rightarrow> ([], Inl e)
           | Inr sl \<Rightarrow>
               (case template_value sl of
                  Inl e \<Rightarrow> ([], Inl e)
                | Inr u \<Rightarrow>
                    (case r of
                       Resolve x \<Rightarrow> ([VendorSendMessage h txt thread ty], Inr ())
                     | Reject e \<Rightarrow> ([VendorSendMessage h txt thread ty], Inl (VendorError e))))))"

text \<open>\<open>sendTypingEvent(threadId)\<close>: a failure of the vendor is logged and dropped.\<close>

definition sendTypingEvent :: "ZaloClient \<Rightarrow> jsval \<Rightarrow> reply \<Rightarrow> effect list \<times> (js_error + unit)" where
  "sendTypingEvent a thread r =
     (case api a of
        None \<Rightarrow> ([], Inr ())
      | Some h \<Rightarrow>
          (case r of
             Resolve x \<Rightarrow> ([VendorSendTypingEvent h thread], Inr ())
           | Reject e \<Rightarrow> ([VendorSendTypingEvent h thread], Inr ())))"

definition disconnect :: "ZaloClient \<Rightarrow> ZaloClient \<times> effect list \<times> (js_error + unit)" where
  "disconnect a =
     (a\<lparr> api := None, zalo := None \<rparr>,
      (case api a of None \<Rightarrow> [] | Some h \<Rightarrow> [ListenerStop h]) @ [OnStatus ''disconnected''],
      Inr ())"

section \<open>The bridge server (\<open>server.ts\<close>)\<close>

text \<open>
  The server's fields are \<open>zalo\<close> (the adapter, here \<open>zaloClient\<close>, since the adapter has
  a field \<open>zalo\<close> of its own) and \<open>clients\<close>, a \<open>Set\<close> of sockets: a list without
  repetition in insertion order, which is the order \<open>for ... of\<close> visits. The state also
  holds \<open>readyState\<close> of every socket, which belongs to the socket and which \<open>broadcast\<close>
  reads.

  In this section every handler runs to its end before the next event: a frame comes
  with the way the call of the vendor it causes settles. These are the runs of the
  server in which nothing happens while a call of the vendor is pending; the section
  after this one has the server with its awaits, and \<open>runs_settled_at_once\<close> below
  shows that the two agree on these runs.
\<close>

datatype ready_state = CONNECTING | OPEN | CLOSING | CLOSED

record BridgeServer =
  zaloClient :: "ZaloClient option"
  clients :: "ws list"
  readyState :: "ws \<Rightarrow> ready_state"

definition set_add :: "'a \<Rightarrow> 'a list \<Rightarrow> 'a list" where
  "set_add x xs = (if x \<in> set xs then xs else xs @ [x])"

definition set_delete :: "'a \<Rightarrow> 'a list \<Rightarrow> 'a list" where
  "set_delete x xs = filter (\<lambda>y. y \<noteq> x) xs"

text \<open>The event stands for its serialisation \<open>JSON.stringify(msg)\<close>, computed once.\<close>

definition broadcast :: "BridgeServer \<Rightarrow> BridgeMessage \<Rightarrow> effect list" where
  "broadcast s msg =
     map (\<lambda>client. WsSend client msg) (filter (\<lambda>client. readyState s client = OPEN) (clients s))"

text \<open>
  The callbacks that \<open>handleLogin\<close> gives the adapter: \<open>onMessage\<close> and \<open>onStatus\<close>
  broadcast. An effect of the adapter becomes the effect and what the callback does.
\<close>

fun wire :: "BridgeServer \<Rightarrow> effect \<Rightarrow> effect list" where
  "wire s (OnMessage m) = OnMessage m # broadcast s (MessageEvent m)"
| "wire s (OnStatus st) = OnStatus st # broadcast s (StatusEvent st)"
| "wire s e = [e]"

definition wired :: "BridgeServer \<Rightarrow> effect list \<Rightarrow> effect list" where
  "wired s es = concat (map (wire s) es)"

text \<open>The object \<open>{cookie: cmd.cookie, imei: cmd.imei, userAgent: cmd.userAgent}\<close>.\<close>

definition credentials_of :: "jsval \<Rightarrow> js_error + Credentials" where
  "credentials_of cmd =
     (case get_prop cmd ''cookie'' of
        Inl e \<Rightarrow> Inl e
      | Inr c \<Rightarrow>
     (case get_prop cmd ''imei'' of
        Inl e \<Rightarrow> Inl e
      | Inr i \<Rightarrow>
     (case get_prop cmd ''userAgent'' of
        Inl e \<Rightarrow> Inl e
      | Inr u \<Rightarrow> Inr \<lparr> cookie = c, imei = i, userAgent = u \<rparr>)))"

definition login_result :: "js_error + unit \<Rightarrow> BridgeMessage" where
  "login_result res =
     (case res of
        Inr u \<Rightarrow> LoginEvent True None
      | Inl e \<Rightarrow> LoginEvent False (Some (error_string e)))"

text \<open>
  \<open>handleLogin\<close>: the adapter is built when there is none, before anything can fail,
  and the \<open>catch\<close> block only answers the requester, so the adapter stays whatever the
  login does.
\<close>

definition handleLogin :: "BridgeServer \<Rightarrow> jsval \<Rightarrow> ws \<Rightarrow> reply \<Rightarrow> BridgeServer \<times> effect list" where
  "handleLogin s cmd w r =
     (let a0 = (case zaloClient s of None \<Rightarrow> new_ZaloClient | Some a \<Rightarrow> a);
          new = (case zaloClient s of None \<Rightarrow> [NewZaloClient] | Some a \<Rightarrow> [])
      in case credentials_of cmd of
           Inl e \<Rightarrow> (s\<lparr> zaloClient := Some a0 \<rparr>, new @ [WsSend w (login_result (Inl e))])
         | Inr credentials \<Rightarrow>
             (case login a0 credentials r of
                (a1, effs, res) \<Rightarrow>
                  (s\<lparr> zaloClient := Some a1 \<rparr>, new @ wired s effs @ [WsSend w (login_result res)])))"

text \<open>
  \<open>handleCommand\<close>: the new state, the effects, and the exception that leaves it.
  Reading \<open>cmd.type\<close> throws when \<open>cmd\<close> is \<open>null\<close>; once it has been read, \<open>cmd.to\<close> and
  \<open>cmd.text\<close> cannot throw. A command of no branch does nothing. The inner \<open>None\<close> cases
  only name the adapter that the test before them has found.
\<close>

definition handleCommand :: "BridgeServer \<Rightarrow> jsval \<Rightarrow> ws \<Rightarrow> reply \<Rightarrow> BridgeServer \<times> effect list \<times> (js_error + unit)" where
  "handleCommand s cmd w r =
     (case get_prop cmd ''type'' of
        Inl e \<Rightarrow> (s, [], Inl e)
      | Inr ty \<Rightarrow>
          if ty = JStr ''login'' then
            (case handleLogin s cmd w r of (s', effs) \<Rightarrow> (s', effs, Inr ()))
          else if ty = JStr ''send'' \<and> zaloClient s \<noteq> None then
            (case zaloClient s of
               None \<Rightarrow> (s, [], Inr ())
             | Some a \<Rightarrow>
                 (case sendMessage a (opt_chain cmd ''to'') (opt_chain cmd ''text'') JUndefined r of
                    (effs, res) \<Rightarrow> (s, effs, res)))
          else if ty = JStr ''typing'' \<and> zaloClient s \<noteq> None then
            (case zaloClient s of
               None \<Rightarrow> (s, [], Inr ())
             | Some a \<Rightarrow>
                 (case sendTypingEvent a (opt_chain cmd ''to'') r of
                    (effs, res) \<Rightarrow> (s, effs, res)))
          else (s, [], Inr ()))"

text \<open>
  A frame as \<open>JSON.parse(data.toString())\<close> leaves it: a SyntaxError with its message,
  or the parsed value.
\<close>

datatype frame = Unparsable string | Parsed jsval

text \<open>The \<open>message\<close> handler of a socket, with its \<open>try\<close>/\<open>catch\<close>.\<close>

definition on_message :: "BridgeServer \<Rightarrow> ws \<Rightarrow> frame \<Rightarrow> reply \<Rightarrow> BridgeServer \<times> effect list" where
  "on_message s w f r =
     (case f of
        Unparsable m \<Rightarrow> (s, [WsSend w (ErrorEvent (error_string (SyntaxError m)))])
      | Parsed cmd \<Rightarrow>
          (case handleCommand s cmd w r of
             (s', effs, Inl e) \<Rightarrow> (s', effs @ [WsSend w (ErrorEvent (error_string e))])
           | (s', effs, Inr u) \<Rightarrow> (s', effs)))"

text \<open>
  The \<open>close\<close> and the \<open>error\<close> handler of a socket: the socket leaves the set, and when
  the set is then empty and an adapter exists, the adapter is disconnected and released.
  \<open>Disconnect\<close> records the call of \<open>this.zalo.disconnect()\<close>, whose own effects follow it.
\<close>

definition on_close :: "BridgeServer \<Rightarrow> ws \<Rightarrow> BridgeServer \<times> effect list" where
  "on_close s w =
     (let s1 = s\<lparr> clients := set_delete w (clients s) \<rparr>
      in if length (clients s1) = 0 \<and> zaloClient s1 \<noteq> None then
           (case zaloClient s1 of
              None \<Rightarrow> (s1, [])
            | Some a \<Rightarrow>
                (case disconnect a of
                   (a', effs, res) \<Rightarrow> (s1\<lparr> zaloClient := None \<rparr>, Disconnect # wired s1 effs)))
         else (s1, []))"

definition on_error :: "BridgeServer \<Rightarrow> ws \<Rightarrow> BridgeServer \<times> effect list" where
  "on_error s w =
     (let s1 = s\<lparr> clients := set_delete w (clients s) \<rparr>
      in if length (clients s1) = 0 \<and> zaloClient s1 \<noteq> None then
           (case zaloClient s1 of
              None \<Rightarrow> (s1, [])
            | Some a \<Rightarrow>
                (case disconnect a of
                   (a', effs, res) \<Rightarrow> (s1\<lparr> zaloClient := None \<rparr>, Disconnect # wired s1 effs)))
         else (s1, []))"

text \<open>The \<open>connection\<close> handler: the new socket is open and joins the set.\<close>

definition on_connection :: "BridgeServer \<Rightarrow> ws \<Rightarrow> BridgeServer \<times> effect list" where
  "on_connection s w =
     (s\<lparr> clients := set_add w (clients s), readyState := (readyState s)(w := OPEN) \<rparr>, [])"

text \<open>
  The vendor's listener calls the adapter's handlers only while an adapter with a
  handle exists: a raw message goes through \<open>message_handler\<close>, a listener error
  reports the status \<open>error\<close>.
\<close>

definition on_listener_message :: "BridgeServer \<Rightarrow> int \<Rightarrow> jsval \<Rightarrow> BridgeServer \<times> effect list" where
  "on_listener_message s now message =
     (case zaloClient s of
        None \<Rightarrow> (s, [])
      | Some a \<Rightarrow>
          (case api a of
             None \<Rightarrow> (s, [])
           | Some h \<Rightarrow> (s, wired s (map OnMessage (snd (message_handler now message))))))"

definition on_listener_error :: "BridgeServer \<Rightarrow> BridgeServer \<times> effect list" where
  "on_listener_error s =
     (case zaloClient s of
        None \<Rightarrow> (s, [])
      | Some a \<Rightarrow>
          (case api a of
             None \<Rightarrow> (s, [])
           | Some h \<Rightarrow> (s, wired s [OnStatus ''error''])))"

subsection \<open>Runs of the server\<close>

text \<open>
  What can happen to the server: a client connects, a frame arrives on a socket (with
  the way the vendor call it may cause settles), a socket closes or fails, a socket
  changes its \<open>readyState\<close> without an event of its own (it is \<open>CLOSING\<close> between the
  closing handshake and its \<open>close\<close> event), and the vendor's listener reports a message
  (with the clock at that moment) or an error.
\<close>

datatype event =
    Connection ws
  | WsMessage ws frame reply
  | WsClose ws
  | WsError ws
  | ReadyState ws ready_state
  | ListenerMessage int jsval
  | ListenerError

fun step :: "BridgeServer \<Rightarrow> event \<Rightarrow> BridgeServer \<times> effect list" where
  "step s (Connection w) = on_connection s w"
| "step s (WsMessage w f r) = on_message s w f r"
| "step s (WsClose w) = on_close (s\<lparr> readyState := (readyState s)(w := CLOSED) \<rparr>) w"
| "step s (WsError w) = on_error s w"
| "step s (ReadyState w rs) = (s\<lparr> readyState := (readyState s)(w := rs) \<rparr>, [])"
| "step s (ListenerMessage now m) = on_listener_message s now m"
| "step s ListenerError = on_listener_error s"

definition initial :: BridgeServer where
  "initial = \<lparr> zaloClient = None, clients = [], readyState = (\<lambda>w. CLOSED) \<rparr>"

text \<open>The state after a sequence of events, and everything done on the way.\<close>

fun run :: "BridgeServer \<Rightarrow> event list \<Rightarrow> BridgeServer \<times> effect list" where
  "run s [] = (s, [])"
| "run s (e # es) =
     (case step s e of
        (s1, effs1) \<Rightarrow> (case run s1 es of (s2, effs2) \<Rightarrow> (s2, effs1 @ effs2)))"

section \<open>The server between its awaits\<close>

text \<open>
  A handler that awaits a call of the vendor is suspended there, and other events are
  handled before the call settles: a client may connect, send a command or close while a
  login is pending. Here every \<open>await\<close> of a call of the vendor is a point where a
  handler stops and a later event resumes it. An adapter is an object with an
  identity, since a suspended \<open>login\<close> resumes on the object it was called on, whether
  the server still holds that object or not: the state has a store of adapters by
  address, and \<open>this.zalo\<close> of the server is an address.

  The other awaits are of functions of the repository itself, which stop only at
  those calls of the vendor. The \<open>close\<close> handler awaits \<open>this.zalo.disconnect()\<close>, and
  \<open>disconnect\<close> awaits nothing, so that handler resumes before any other event and
  stays one step; so does a handler whose command fails before the vendor is called.
\<close>

text \<open>
  \<open>login\<close> up to its \<open>await\<close>: the vendor's instance is built and its \<open>login\<close> called.
  Then \<open>login\<close> from the \<open>await\<close> on, once the vendor has settled.
\<close>

definition login_begin :: "ZaloClient \<Rightarrow> Credentials \<Rightarrow> ZaloClient \<times> effect list" where
  "login_begin a credentials =
     (a\<lparr> zalo := Some \<lparr> selfListen = False, checkUpdate = False, logging = True \<rparr> \<rparr>,
      [VendorLogin credentials])"

definition login_resume :: "ZaloClient \<Rightarrow> reply \<Rightarrow> ZaloClient \<times> effect list \<times> (js_error + unit)" where
  "login_resume a r =
     (case r of
        Resolve h \<Rightarrow>
          (let a2 = a\<lparr> api := Some h \<rparr>
           in (a2, [OnStatus ''connected''] @ setupMessageListener a2 @ [ListenerStart h], Inr ()))
      | Reject e \<Rightarrow> (a, [OnStatus ''disconnected''], Inl (VendorError e)))"

text \<open>
  \<open>sendMessage\<close> up to its \<open>await\<close>: an exception before the call of the vendor, or the
  call. After the \<open>await\<close> it returns, or throws what the vendor rejected with.
\<close>

definition sendMessage_begin :: "ZaloClient \<Rightarrow> jsval \<Rightarrow> jsval \<Rightarrow> jsval \<Rightarrow> effect list \<times> (js_error + unit)" where
  "sendMessage_begin a thread txt ty =
     (case api a of
        None \<Rightarrow> ([], Inl NotLoggedIn)
      | Some h \<Rightarrow>
          (case slice_call thread of
             Inl e \<Rightarrow> ([], Inl e)
           | Inr sl \<Rightarrow>
               (case template_value sl of
                  Inl e \<Rightarrow> ([], Inl e)
                | Inr u \<Rightarrow> ([VendorSendMessage h txt thread ty], Inr ()))))"

definition sendMessage_resume :: "reply \<Rightarrow> js_error + unit" where
  "sendMessage_resume r = (case r of Resolve x \<Rightarrow> Inr () | Reject e \<Rightarrow> Inl (VendorError e))"

text \<open>
  A suspended handler: the message handler inside \<open>handleLogin\<close> inside \<open>login\<close> of the
  adapter at an address, for the socket that asked; the message handler inside
  \<open>sendMessage\<close>, for the socket that asked; the message handler inside
  \<open>sendTypingEvent\<close>.
\<close>

datatype suspended = AwaitLogin nat ws | AwaitSend ws | AwaitTyping

text \<open>
  The state: \<open>this.zalo\<close> as an address, the store of adapters and its next free
  address, \<open>this.clients\<close>, the \<open>readyState\<close> of every socket, the suspended handlers in
  the order they were suspended, and the handles of the vendor whose listener has
  been started and not stopped.
\<close>

record AsyncServer =
  zaloRef :: "nat option"
  heap :: "nat \<Rightarrow> ZaloClient"
  fresh :: nat
  clientSet :: "ws list"
  readyStates :: "ws \<Rightarrow> ready_state"
  awaiting :: "suspended list"
  listeners :: "api list"

text \<open>The server as the handlers of one step see it.\<close>

definition server_of :: "AsyncServer \<Rightarrow> BridgeServer" where
  "server_of p =
     \<lparr> zaloClient = (case zaloRef p of None \<Rightarrow> None | Some i \<Rightarrow> Some (heap p i)),
       clients = clientSet p, readyState = readyStates p \<rparr>"

text \<open>
  \<open>if (!this.zalo) this.zalo = new ZaloClient(...)\<close>: the state, the address that
  \<open>this.zalo\<close> names afterwards, and the construction if there was one.
\<close>

definition ensure_adapter :: "AsyncServer \<Rightarrow> AsyncServer \<times> nat \<times> effect list" where
  "ensure_adapter p =
     (case zaloRef p of
        None \<Rightarrow>
          (p\<lparr> zaloRef := Some (fresh p), heap := (heap p)(fresh p := new_ZaloClient),
              fresh := Suc (fresh p) \<rparr>,
           fresh p, [NewZaloClient])
      | Some i \<Rightarrow> (p, i, []))"

text \<open>
  \<open>handleLogin\<close> up to the \<open>await\<close>: the adapter is built and stored when \<open>this.zalo\<close> is
  empty; if building the credentials throws, the \<open>catch\<close> block answers at once;
  otherwise \<open>login\<close> is called on the adapter that \<open>this.zalo\<close> names now, and the
  handler is suspended with that adapter.
\<close>

definition handleLogin_begin :: "AsyncServer \<Rightarrow> jsval \<Rightarrow> ws \<Rightarrow> AsyncServer \<times> effect list" where
  "handleLogin_begin p cmd w =
     (case ensure_adapter p of
        (p1, i, new) \<Rightarrow>
          (case credentials_of cmd of
             Inl e \<Rightarrow> (p1, new @ [WsSend w (login_result (Inl e))])
           | Inr credentials \<Rightarrow>
               (case login_begin (heap p1 i) credentials of
                  (a1, effs) \<Rightarrow>
                    (p1\<lparr> heap := (heap p1)(i := a1), awaiting := awaiting p1 @ [AwaitLogin i w] \<rparr>,
                     new @ effs))))"

text \<open>
  \<open>handleCommand\<close> up to the first \<open>await\<close>, with the exception that leaves it at once.
\<close>

definition handleCommand_begin :: "AsyncServer \<Rightarrow> jsval \<Rightarrow> ws \<Rightarrow> AsyncServer \<times> effect list \<times> (js_error + unit)" where
  "handleCommand_begin p cmd w =
     (case get_prop cmd ''type'' of
        Inl e \<Rightarrow> (p, [], Inl e)
      | Inr ty \<Rightarrow>
          if ty = JStr ''login'' then
            (case handleLogin_begin p cmd w of (p', effs) \<Rightarrow> (p', effs, Inr ()))
          else if ty = JStr ''send'' \<and> zaloRef p \<noteq> None then
            (case zaloRef p of
               None \<Rightarrow> (p, [], Inr ())
             | Some i \<Rightarrow>
                 (case sendMessage_begin (heap p i) (opt_chain cmd ''to'') (opt_chain cmd ''text'') JUndefined of
                    (effs, Inl e) \<Rightarrow> (p, effs, Inl e)
                  | (effs, Inr u) \<Rightarrow> (p\<lparr> awaiting := awaiting p @ [AwaitSend w] \<rparr>, effs, Inr ())))
          else if ty = JStr ''typing'' \<and> zaloRef p \<noteq> None then
            (case zaloRef p of
               None \<Rightarrow> (p, [], Inr ())
             | Some i \<Rightarrow>
                 (case api (heap p i) of
                    None \<Rightarrow> (p, [], Inr ())
                  | Some h \<Rightarrow>
                      (p\<lparr> awaiting := awaiting p @ [AwaitTyping] \<rparr>,
                       [VendorSendTypingEvent h (opt_chain cmd ''to'')], Inr ())))
          else (p, [], Inr ()))"

text \<open>The \<open>message\<close> handler of a socket up to its first \<open>await\<close>.\<close>

definition message_begin :: "AsyncServer \<Rightarrow> ws \<Rightarrow> frame \<Rightarrow> AsyncServer \<times> effect list" where
  "message_begin p w f =
     (case f of
        Unparsable m \<Rightarrow> (p, [WsSend w (ErrorEvent (error_string (SyntaxError m)))])
      | Parsed cmd \<Rightarrow>
          (case handleCommand_begin p cmd w of
             (p', effs, Inl e) \<Rightarrow> (p', effs @ [WsSend w (ErrorEvent (error_string e))])
           | (p', effs, Inr u) \<Rightarrow> (p', effs)))"

text \<open>
  A suspended handler resumes when the vendor settles. A login resumes on its own
  adapter: a resolved one stores the handle there, reports \<open>connected\<close> and starts the
  listener, a rejected one reports \<open>disconnected\<close>; both broadcast to the clients of
  that moment, and \<open>handleLogin\<close> then answers the socket that asked. A rejected send
  reaches the \<open>catch\<close> block of the message handler; a typing call ends silently.
\<close>

fun resume :: "AsyncServer \<Rightarrow> suspended \<Rightarrow> reply \<Rightarrow> AsyncServer \<times> effect list" where
  "resume p (AwaitLogin i w) r =
     (case login_resume (heap p i) r of
        (a', effs, res) \<Rightarrow>
          (p\<lparr> heap := (heap p)(i := a'),
              listeners := (case r of Resolve h \<Rightarrow> set_add h (listeners p) | Reject e \<Rightarrow> listeners p) \<rparr>,
           wired (server_of p) effs @ [WsSend w (login_result res)]))"
| "resume p (AwaitSend w) r =
     (case sendMessage_resume r of
        Inl e \<Rightarrow> (p, [WsSend w (ErrorEvent (error_string e))])
      | Inr u \<Rightarrow> (p, []))"
| "resume p AwaitTyping r = (p, [])"

text \<open>
  The \<open>close\<close> and the \<open>error\<close> handler: as before, with \<open>disconnect\<close> called on the
  adapter that \<open>this.zalo\<close> names, whose listener, if it has a handle, is stopped.
\<close>

definition close_handler :: "AsyncServer \<Rightarrow> ws \<Rightarrow> AsyncServer \<times> effect list" where
  "close_handler p w =
     (let p1 = p\<lparr> clientSet := set_delete w (clientSet p) \<rparr>
      in if length (clientSet p1) = 0 \<and> zaloRef p1 \<noteq> None then
           (case zaloRef p1 of
              None \<Rightarrow> (p1, [])
            | Some i \<Rightarrow>
                (case disconnect (heap p1 i) of
                   (a', effs, res) \<Rightarrow>
                     (p1\<lparr> heap := (heap p1)(i := a'), zaloRef := None,
                          listeners := (case api (heap p1 i) of
                                          None \<Rightarrow> listeners p1
                                        | Some h \<Rightarrow> set_delete h (listeners p1)) \<rparr>,
                      Disconnect # wired (server_of p1) effs)))
         else (p1, []))"

text \<open>
  What can happen: the events of a socket as before, a frame without the vendor's
  answer; the settling of a suspended call of the vendor, named by its place among
  the suspended handlers; and a message or an error reported by the listener of a
  handle, which reaches the adapter's handlers while that listener runs, whether the
  server holds the adapter or not.
\<close>

datatype aevent =
    AConnection ws
  | AFrame ws frame
  | ASettle nat reply
  | AClose ws
  | AError ws
  | AReadyState ws ready_state
  | AListenerMessage api int jsval
  | AListenerError api

fun astep :: "AsyncServer \<Rightarrow> aevent \<Rightarrow> AsyncServer \<times> effect list" where
  "astep p (AConnection w) =
     (p\<lparr> clientSet := set_add w (clientSet p), readyStates := (readyStates p)(w := OPEN) \<rparr>, [])"
| "astep p (AFrame w f) = message_begin p w f"
| "astep p (ASettle k r) =
     (if k < length (awaiting p) then
        resume (p\<lparr> awaiting := take k (awaiting p) @ drop (Suc k) (awaiting p) \<rparr>) (awaiting p ! k) r
      else (p, []))"
| "astep p (AClose w) = close_handler (p\<lparr> readyStates := (readyStates p)(w := CLOSED) \<rparr>) w"
| "astep p (AError w) = close_handler p w"
| "astep p (AReadyState w rs) = (p\<lparr> readyStates := (readyStates p)(w := rs) \<rparr>, [])"
| "astep p (AListenerMessage h now m) =
     (if h \<in> set (listeners p)
      then (p, wired (server_of p) (map OnMessage (snd (message_handler now m))))
      else (p, []))"
| "astep p (AListenerError h) =
     (if h \<in> set (listeners p) then (p, wired (server_of p) [OnStatus ''error'']) else (p, []))"

definition started :: AsyncServer where
  "started = \<lparr> zaloRef = None, heap = (\<lambda>i. new_ZaloClient), fresh = 0, clientSet = [],
               readyStates = (\<lambda>w. CLOSED), awaiting = [], listeners = [] \<rparr>"

fun arun :: "AsyncServer \<Rightarrow> aevent list \<Rightarrow> AsyncServer \<times> effect list" where
  "arun p [] = (p, [])"
| "arun p (e # es) =
     (case astep p e of
        (p1, effs1) \<Rightarrow> (case arun p1 es of (p2, effs2) \<Rightarrow> (p2, effs1 @ effs2)))"

text \<open>
  The sequences that can happen: a socket connects once, frames arrive only on a
  member of the client set, and only a suspended call settles.
\<close>

fun enabled :: "AsyncServer \<Rightarrow> aevent \<Rightarrow> bool" where
  "enabled p (AConnection w) = (w \<notin> set (clientSet p))"
| "enabled p (AFrame w f) = (w \<in> set (clientSet p))"
| "enabled p (ASettle k r) = (k < length (awaiting p))"
| "enabled p e = True"

fun admissible :: "AsyncServer \<Rightarrow> aevent list \<Rightarrow> bool" where
  "admissible p [] = True"
| "admissible p (e # es) = (enabled p e \<and> admissible (fst (astep p e)) es)"

section \<open>What the properties speak about\<close>

text \<open>The raw timestamp of a vendor event, \<open>message.data?.ts\<close>.\<close>

definition raw_ts :: "jsval \<Rightarrow> jsval" where
  "raw_ts message = opt_chain (opt_chain message ''data'') ''ts''"

text \<open>The adapter exists and holds a handle of the vendor: it is logged in.\<close>

definition logged_in :: "BridgeServer \<Rightarrow> bool" where
  "logged_in s = (case zaloClient s of None \<Rightarrow> False | Some a \<Rightarrow> api a \<noteq> None)"

text \<open>A frame that \<open>handleCommand\<close> takes for a login command.\<close>

definition is_login_frame :: "frame \<Rightarrow> bool" where
  "is_login_frame f =
     (case f of Unparsable m \<Rightarrow> False | Parsed cmd \<Rightarrow> get_prop cmd ''type'' = Inr (JStr ''login''))"

text \<open>
  The receipt of a login command, whatever becomes of it; and the resolution of a
  login on the adapter that the server holds at that moment.
\<close>

fun login_received :: "AsyncServer \<Rightarrow> aevent \<Rightarrow> bool" where
  "login_received p (AFrame w f) = is_login_frame f"
| "login_received p e = False"

fun login_resolved :: "AsyncServer \<Rightarrow> aevent \<Rightarrow> bool" where
  "login_resolved p (ASettle k (Resolve h)) =
     (k < length (awaiting p)
      \<and> (case awaiting p ! k of AwaitLogin i w \<Rightarrow> zaloRef p = Some i | _ \<Rightarrow> False))"
| "login_resolved p e = False"

text \<open>The server holds an adapter that holds a handle of the vendor.\<close>

definition holds_handle :: "AsyncServer \<Rightarrow> bool" where
  "holds_handle p = logged_in (server_of p)"

text \<open>
  In the words of the specification: an event of the kind \<open>P\<close> has occurred since the
  client set last became non-empty. That is, the run from \<open>p\<close> has an event that is of
  the kind in the state it meets, after which, from the moment it has been handled on,
  the client set has never been empty.
\<close>

definition occurred_since :: "(AsyncServer \<Rightarrow> aevent \<Rightarrow> bool) \<Rightarrow> AsyncServer \<Rightarrow> aevent list \<Rightarrow> bool" where
  "occurred_since P p t =
     (\<exists>pre e post. t = pre @ e # post \<and> P (fst (arun p pre)) e
        \<and> (\<forall>q r. post = q @ r \<longrightarrow> clientSet (fst (arun p (pre @ e # q))) \<noteq> []))"

text \<open>The client set is not empty after any step of the run from \<open>p\<close>.\<close>

definition stays_nonempty :: "AsyncServer \<Rightarrow> aevent list \<Rightarrow> bool" where
  "stays_nonempty p t = (\<forall>q r. t = q @ r \<and> q \<noteq> [] \<longrightarrow> clientSet (fst (arun p q)) \<noteq> [])"

text \<open>
  The same, computed along the run from the state \<open>p\<close> and the answer \<open>b\<close> so far: an
  event of the kind makes the answer yes, and an empty client set makes it no.
\<close>

fun since_nonempty :: "(AsyncServer \<Rightarrow> aevent \<Rightarrow> bool) \<Rightarrow> AsyncServer \<Rightarrow> bool \<Rightarrow> aevent list \<Rightarrow> bool" where
  "since_nonempty P p b [] = b"
| "since_nonempty P p b (e # es) =
     (let p' = fst (astep p e) in since_nonempty P p' ((b \<or> P p e) \<and> clientSet p' \<noteq> []) es)"

text \<open>The number of adapters the server holds.\<close>

definition live :: "AsyncServer \<Rightarrow> nat" where
  "live p = (if zaloRef p = None then 0 else 1)"

text \<open>
  The events of a socket in the server that handles a frame in one step, and the same
  events for the server with its awaits when the call of the vendor settles at once.
  The events of the listener are left out: there they come from the listener of a handle.
\<close>

fun socket_event :: "event \<Rightarrow> bool" where
  "socket_event (ListenerMessage now m) = False"
| "socket_event ListenerError = False"
| "socket_event e = True"

fun at_once :: "event \<Rightarrow> aevent list" where
  "at_once (Connection w) = [AConnection w]"
| "at_once (WsMessage w f r) = [AFrame w f, ASettle 0 r]"
| "at_once (WsClose w) = [AClose w]"
| "at_once (WsError w) = [AError w]"
| "at_once (ReadyState w rs) = [AReadyState w rs]"
| "at_once e = []"

subsection \<open>Example inputs\<close>

text \<open>
  Raw events of the vendor: a text message; a sticker, whose content is an object
  without a link; a text message with the timestamp \<open>"0"\<close>; and an event whose data
  has neither sender nor message identifier.
\<close>

abbreviation text_event :: jsval where
  "text_event \<equiv>
     JObj [(''type'', JNum (Fin 1)), (''threadId'', JStr ''g42''),
           (''data'', JObj [(''uidFrom'', JStr ''8001''), (''msgId'', JStr ''m1''),
                            (''ts'', JStr ''1700000000000''), (''content'', JStr ''hello'')])]"

abbreviation sticker_event :: jsval where
  "sticker_event \<equiv>
     JObj [(''type'', JNum (Fin 0)), (''threadId'', JStr ''8001''),
           (''data'', JObj [(''uidFrom'', JStr ''8001''), (''msgId'', JStr ''m2''),
                            (''ts'', JStr ''1700000000000''),
                            (''content'', JObj [(''id'', JNum (Fin 21)), (''catId'', JNum (Fin 3))])])]"

abbreviation zero_ts_event :: jsval where
  "zero_ts_event \<equiv>
     JObj [(''type'', JNum (Fin 0)), (''threadId'', JStr ''8001''),
           (''data'', JObj [(''uidFrom'', JStr ''8001''), (''msgId'', JStr ''m3''),
                            (''ts'', JStr ''0''), (''content'', JStr ''hello'')])]"

abbreviation anonymous_event :: jsval where
  "anonymous_event \<equiv>
     JObj [(''type'', JNum (Fin 0)), (''threadId'', JStr ''8001''),
           (''data'', JObj [(''content'', JStr ''hello'')])]"

text \<open>Commands of a client.\<close>

abbreviation login_cmd :: jsval where
  "login_cmd \<equiv>
     JObj [(''type'', JStr ''login''), (''cookie'', JArr []), (''imei'', JStr ''i1''),
           (''userAgent'', JStr ''ua'')]"

abbreviation send_cmd :: jsval where
  "send_cmd \<equiv> JObj [(''type'', JStr ''send''), (''to'', JStr ''8001''), (''text'', JStr ''hi'')]"

abbreviation ping_cmd :: jsval where
  "ping_cmd \<equiv> JObj [(''type'', JStr ''ping'')]"


section \<open>Properties of the adapter\<close>

lemma slice_call_TypeError: "slice_call v = Inl e \<Longrightarrow> \<exists>m. e = TypeError m"
  by (cases v) auto

lemma get_prop_object: "get_prop v q = Inr t \<Longrightarrow> get_prop v p = Inr (opt_chain v p)"
  by (cases v) (simp_all add: opt_chain_def)

text \<open>
  Claim C8. \<open>disconnect()\<close> is total and idempotent: from every state of the adapter
  it returns normally, leaves both the session handle and the client handle cleared,
  calls \<open>onStatus("disconnected")\<close> exactly once, stops the vendor's listener when a
  handle is held (and does nothing else when none is), and a second call leaves the
  state the first call left.
\<close>

theorem disconnect_total_idempotent:
  "(case disconnect a of
      (a', effs, res) \<Rightarrow>
        res = Inr () \<and> api a' = None \<and> zalo a' = None
        \<and> length (filter (\<lambda>e. e = OnStatus ''disconnected'') effs) = 1
        \<and> (\<forall>h. api a = Some h \<longrightarrow> effs = [ListenerStop h, OnStatus ''disconnected''])
        \<and> (api a = None \<longrightarrow> effs = [OnStatus ''disconnected''])
        \<and> fst (disconnect a') = a')"
  by (cases "api a") (simp_all add: disconnect_def)

theorem disconnect_total_idempotent_witness:
  "(case disconnect \<lparr> zalo = Some \<lparr> selfListen = False, checkUpdate = False, logging = True \<rparr>,
                      api = Some 7 \<rparr> of
      (a', effs, res) \<Rightarrow>
        res = Inr () \<and> a' = new_ZaloClient
        \<and> effs = [ListenerStop 7, OnStatus ''disconnected'']
        \<and> disconnect a' = (a', [OnStatus ''disconnected''], Inr ()))
   \<and> disconnect new_ZaloClient = (new_ZaloClient, [OnStatus ''disconnected''], Inr ())"
  using disconnect_total_idempotent
    [of "\<lparr> zalo = Some \<lparr> selfListen = False, checkUpdate = False, logging = True \<rparr>, api = Some 7 \<rparr>"]
    disconnect_total_idempotent [of new_ZaloClient]
  by (simp add: disconnect_def new_ZaloClient_def)

text \<open>
  Claim C6. \<open>sendMessage(threadId, text)\<close> fails with the NotLoggedIn error exactly when
  no handle is held, and then calls nothing of the vendor; when a handle is held and
  the thread identifier is one the log line accepts (a string, as the signature
  declares, or an array whose elements convert to text), it makes exactly one call of
  the vendor's \<open>sendMessage\<close>, and what the vendor rejects with reaches the caller as the
  error of the call.
\<close>

theorem sendMessage_errors:
  "(snd (sendMessage a thread txt ty r) = Inl NotLoggedIn \<longleftrightarrow> api a = None)
   \<and> (api a = None \<longrightarrow> fst (sendMessage a thread txt ty r) = [])
   \<and> (\<forall>h sl. api a = Some h \<and> slice_call thread = Inr sl \<and> converts sl \<longrightarrow>
         fst (sendMessage a thread txt ty r) = [VendorSendMessage h txt thread ty]
         \<and> snd (sendMessage a thread txt ty r)
             = (case r of Resolve x \<Rightarrow> Inr () | Reject e \<Rightarrow> Inl (VendorError e)))"
  by (cases "api a"; cases r; cases "slice_call thread")
     (auto simp: sendMessage_def template_value_def dest: slice_call_TypeError)

theorem sendMessage_errors_witness:
  "sendMessage new_ZaloClient (JStr ''8001'') (JStr ''hi'') JUndefined (Resolve 0) = ([], Inl NotLoggedIn)
   \<and> sendMessage (new_ZaloClient\<lparr> api := Some 7 \<rparr>) (JStr ''8001'') (JStr ''hi'') JUndefined (Reject ''timeout'')
       = ([VendorSendMessage 7 (JStr ''hi'') (JStr ''8001'') JUndefined], Inl (VendorError ''timeout''))
   \<and> sendMessage (new_ZaloClient\<lparr> api := Some 7 \<rparr>) (JStr ''8001'') (JStr ''hi'') JUndefined (Resolve 0)
       = ([VendorSendMessage 7 (JStr ''hi'') (JStr ''8001'') JUndefined], Inr ())"
  using sendMessage_errors [of new_ZaloClient "JStr ''8001''" "JStr ''hi''" JUndefined "Resolve 0"]
    sendMessage_errors [of "new_ZaloClient\<lparr> api := Some 7 \<rparr>" "JStr ''8001''" "JStr ''hi''" JUndefined "Reject ''timeout''"]
    sendMessage_errors [of "new_ZaloClient\<lparr> api := Some 7 \<rparr>" "JStr ''8001''" "JStr ''hi''" JUndefined "Resolve 0"]
  by (simp add: new_ZaloClient_def prod_eq_iff)

subsection \<open>The handler of raw messages\<close>

lemmas number_defs = StringToNumber_def trim_def is_space_def unsigned_decimal_def is_digit_def
  digit_of_def digits_value_def exponent_part_def pow10_def

lemmas adapter_defs = message_handler_def message_body_def classify_content_def opt_chain_def
  timestamp_of_def Number_call_def template_value_def falsy_num_def ThreadType_Group_def
  raw_ts_def

lemma timestamp_text: "StringToNumber ''1700000000000'' = Fin 1700000000000"
  by (simp add: number_defs)

lemma timestamp_zero: "StringToNumber ''0'' = Fin 0"
  by (simp add: number_defs)

text \<open>
  The classification as the code makes it: a string is kept as it is; any other
  content whose \<open>href\<close> reads as \<open>null\<close> is dropped; any other content whose \<open>href\<close> reads
  as anything else, \<open>undefined\<close> included, becomes an attachment; and content that is
  \<open>undefined\<close> or \<open>null\<close> makes the read throw.
\<close>

lemma classify_content_cases:
  "classify_content (JStr t) = Inr (Some (Text t))"
  "get_prop c ''href'' = Inr JNull \<Longrightarrow> classify_content c = Inr None"
  "(\<forall>t. c \<noteq> JStr t) \<Longrightarrow> get_prop c ''href'' = Inr h \<Longrightarrow> h \<noteq> JNull \<Longrightarrow>
     classify_content c = Inr (Some (Attachment h))"
  "(\<forall>t. c \<noteq> JStr t) \<Longrightarrow> get_prop c ''href'' = Inl e \<Longrightarrow> classify_content c = Inl e"
  by (cases c; simp add: classify_content_def)+

text \<open>
  Claim C1 says that a structured payload without a link produces no event. The code
  compares the link with \<open>null\<close> by \<open>!==\<close>, and a payload that has no \<open>href\<close> at all reads
  as \<open>undefined\<close>, which is not \<open>null\<close>: a sticker, whose content is the object
  \<open>{id: 21, catId: 3}\<close>, is classified as an attachment whose link is \<open>undefined\<close>, and
  \<open>onMessage\<close> is called with it.
\<close>

theorem sticker_forwarded_without_link:
  "classify_content (JObj [(''id'', JNum (Fin 21)), (''catId'', JNum (Fin 3))])
     = Inr (Some (Attachment JUndefined))
   \<and> message_handler 1700000000500 sticker_event =
     (None, [\<lparr> senderId = JStr ''8001'', threadId = JStr ''8001'', content = Attachment JUndefined,
               messageId = JStr ''m2'', timestamp = Fin 1700000000000, isGroup = False \<rparr>])"
  by (simp add: adapter_defs timestamp_text)

text \<open>
  Claim C3, as the code has it. The timestamp of every forwarded message is
  \<open>Number(ts)\<close> of the raw timestamp when that is neither NaN nor zero, and the time of
  receipt otherwise, that is, when the field is absent, does not convert to a number,
  or converts to zero; it is never NaN, and as a number it is never \<open>undefined\<close>.
\<close>

theorem timestamp_fallback:
  assumes "m \<in> set (snd (message_handler now message))"
  shows "timestamp m =
           (if ToNumber (raw_ts message) = NaN \<or> ToNumber (raw_ts message) = Fin 0
            then Fin (rat_of_int now) else ToNumber (raw_ts message))
         \<and> timestamp m \<noteq> NaN"
  using assms
  by (auto simp: message_handler_def message_body_def raw_ts_def timestamp_of_def Number_call_def
        falsy_num_def opt_chain_def split: sum.splits option.splits if_splits)

theorem timestamp_fallback_witness:
  "snd (message_handler 1700000000500 text_event) =
     [\<lparr> senderId = JStr ''8001'', threadId = JStr ''g42'', content = Text ''hello'',
        messageId = JStr ''m1'', timestamp = Fin 1700000000000, isGroup = True \<rparr>]
   \<and> ToNumber (raw_ts text_event) = Fin 1700000000000
   \<and> snd (message_handler 1700000000500 anonymous_event) =
     [\<lparr> senderId = JUndefined, threadId = JStr ''8001'', content = Text ''hello'',
        messageId = JUndefined, timestamp = Fin 1700000000500, isGroup = False \<rparr>]
   \<and> ToNumber (raw_ts anonymous_event) = NaN"
proof -
  have 1: "snd (message_handler 1700000000500 text_event) =
     [\<lparr> senderId = JStr ''8001'', threadId = JStr ''g42'', content = Text ''hello'',
        messageId = JStr ''m1'', timestamp = Fin 1700000000000, isGroup = True \<rparr>]"
    by (simp add: adapter_defs timestamp_text)
  have 2: "snd (message_handler 1700000000500 anonymous_event) =
     [\<lparr> senderId = JUndefined, threadId = JStr ''8001'', content = Text ''hello'',
        messageId = JUndefined, timestamp = Fin 1700000000500, isGroup = False \<rparr>]"
    by (simp add: adapter_defs)
  have m1: "\<lparr> senderId = JStr ''8001'', threadId = JStr ''g42'', content = Text ''hello'',
        messageId = JStr ''m1'', timestamp = Fin 1700000000000, isGroup = True \<rparr>
        \<in> set (snd (message_handler 1700000000500 text_event))"
    unfolding 1 by simp
  have m2: "\<lparr> senderId = JUndefined, threadId = JStr ''8001'', content = Text ''hello'',
        messageId = JUndefined, timestamp = Fin 1700000000500, isGroup = False \<rparr>
        \<in> set (snd (message_handler 1700000000500 anonymous_event))"
    unfolding 2 by simp
  show ?thesis
    using 1 2 timestamp_fallback [OF m1] timestamp_fallback [OF m2]
    by (simp add: raw_ts_def opt_chain_def timestamp_text)
qed

text \<open>
  Against claim C3 as it was stated: the vendor supplies the timestamp \<open>"0"\<close>, which
  is present and numeric, and the forwarded message carries the time of receipt
  instead, since \<open>||\<close> takes zero for a missing value.
\<close>

theorem zero_timestamp_replaced:
  "raw_ts zero_ts_event = JStr ''0''
   \<and> ToNumber (raw_ts zero_ts_event) = Fin 0
   \<and> map timestamp (snd (message_handler 1700000000500 zero_ts_event)) = [Fin 1700000000500]"
  by (simp add: adapter_defs timestamp_zero)

text \<open>
  Claim C9, as the code has it. The handler of raw messages lets no exception escape:
  whatever the body of its \<open>try\<close> block throws is caught, and then \<open>onMessage\<close> is not
  called. For every event it calls \<open>onMessage\<close> at most once, and only with a message
  all of whose fields have been computed: the thread identifier is one on which
  \<open>slice\<close> has succeeded, the timestamp is a number other than NaN, and the link of an
  attachment is not \<open>null\<close>. The sender and the message identifier are copied from the
  event's data unchecked, so they are \<open>undefined\<close> when the data has none.
\<close>

theorem handler_safety:
  "fst (message_handler now message) = None
   \<and> length (snd (message_handler now message)) \<le> 1
   \<and> (\<forall>e. message_body now message = Inl e \<longrightarrow> message_handler now message = (None, []))
   \<and> (\<forall>m \<in> set (snd (message_handler now message)).
        (\<exists>d. get_prop message ''data'' = Inr d
              \<and> senderId m = opt_chain d ''uidFrom'' \<and> messageId m = opt_chain d ''msgId'')
        \<and> (\<exists>v. slice_call (threadId m) = Inr v)
        \<and> timestamp m \<noteq> NaN
        \<and> content m \<noteq> Attachment JNull)"
  by (auto simp: message_handler_def message_body_def timestamp_of_def Number_call_def
        falsy_num_def classify_content_def
        split: sum.splits option.splits jsval.splits if_splits)

theorem handler_safety_witness:
  "message_body 1700000000500 (JObj [(''data'', JNull)])
     = Inl (TypeError ''Cannot read properties of null (reading 'content')'')
   \<and> message_handler 1700000000500 (JObj [(''data'', JNull)]) = (None, [])
   \<and> message_handler 1700000000500 text_event =
     (None, [\<lparr> senderId = JStr ''8001'', threadId = JStr ''g42'', content = Text ''hello'',
               messageId = JStr ''m1'', timestamp = Fin 1700000000000, isGroup = True \<rparr>])"
  using handler_safety [of 1700000000500 "JObj [(''data'', JNull)]"]
    handler_safety [of 1700000000500 text_event]
  by (simp add: adapter_defs timestamp_text)

text \<open>
  Against claim C9 as it was stated: the data of the event has a text but neither
  \<open>uidFrom\<close> nor \<open>msgId\<close>; \<open>onMessage\<close> is called once, with a message whose sender and
  message identifier are \<open>undefined\<close>, which is not a fully populated \<open>InboundMessage\<close>.
\<close>

theorem sender_left_undefined:
  "snd (message_handler 1700000000500 anonymous_event) =
     [\<lparr> senderId = JUndefined, threadId = JStr ''8001'', content = Text ''hello'',
        messageId = JUndefined, timestamp = Fin 1700000000500, isGroup = False \<rparr>]"
  by (simp add: adapter_defs)

section \<open>Properties of the server\<close>

subsection \<open>What the handlers leave alone\<close>

lemmas handler_defs = on_connection_def on_message_def on_close_def on_error_def
  on_listener_message_def on_listener_error_def handleCommand_def handleLogin_def
  credentials_of_def login_def login_result_def setupMessageListener_def sendMessage_def
  sendTypingEvent_def disconnect_def broadcast_def wired_def set_add_def set_delete_def
  initial_def new_ZaloClient_def opt_chain_def message_handler_def template_value_def

lemma credentials_of_object:
  "get_prop cmd q = Inr t \<Longrightarrow>
   credentials_of cmd = Inr \<lparr> cookie = opt_chain cmd ''cookie'', imei = opt_chain cmd ''imei'',
                              userAgent = opt_chain cmd ''userAgent'' \<rparr>"
  by (cases cmd) (simp_all add: credentials_of_def opt_chain_def)

lemma wired_simps:
  "wired s [] = []"
  "wired s (e # es) = wire s e @ wired s es"
  "wired s (es @ fs) = wired s es @ wired s fs"
  by (simp_all add: wired_def)

lemma handleLogin_sockets:
  "clients (fst (handleLogin s cmd w r)) = clients s
   \<and> readyState (fst (handleLogin s cmd w r)) = readyState s"
  by (simp add: handleLogin_def Let_def case_prod_beta split: sum.splits)

lemma handleCommand_sockets:
  "clients (fst (handleCommand s cmd w r)) = clients s
   \<and> readyState (fst (handleCommand s cmd w r)) = readyState s"
  by (simp add: handleCommand_def handleLogin_sockets case_prod_beta split: sum.splits option.splits)

lemma on_message_sockets:
  "clients (fst (on_message s w f r)) = clients s
   \<and> readyState (fst (on_message s w f r)) = readyState s"
  by (simp add: on_message_def handleCommand_sockets case_prod_beta split: frame.splits sum.splits)

lemma on_close_clients: "clients (fst (on_close s w)) = set_delete w (clients s)"
  by (simp add: on_close_def Let_def disconnect_def split: option.splits)

lemma on_error_clients: "clients (fst (on_error s w)) = set_delete w (clients s)"
  by (simp add: on_error_def Let_def disconnect_def split: option.splits)

lemma step_clients:
  "clients (fst (step s e)) =
     (case e of
        Connection w \<Rightarrow> set_add w (clients s)
      | WsClose w \<Rightarrow> set_delete w (clients s)
      | WsError w \<Rightarrow> set_delete w (clients s)
      | _ \<Rightarrow> clients s)"
  by (cases e)
     (simp_all add: on_connection_def on_message_sockets on_close_clients on_error_clients
        on_listener_message_def on_listener_error_def split: option.splits)

lemma set_add_nonempty: "set_add x xs \<noteq> []"
  by (auto simp: set_add_def)

lemma step_distinct: "distinct (clients s) \<Longrightarrow> distinct (clients (fst (step s e)))"
  unfolding step_clients by (simp add: set_add_def set_delete_def split: event.splits)

lemma run_distinct: "distinct (clients s) \<Longrightarrow> distinct (clients (fst (run s t)))"
proof (induction t arbitrary: s)
  case Nil
  then show ?case by simp
next
  case (Cons e t)
  from Cons.IH [OF step_distinct [OF Cons.prems, of e]]
  show ?case by (simp add: case_prod_beta)
qed

subsection \<open>Who is sent what\<close>

lemma wire_cases:
  "x \<in> set (wire s e) \<Longrightarrow>
     x = e \<or> (\<exists>c m. x = WsSend c (MessageEvent m)) \<or> (\<exists>c st. x = WsSend c (StatusEvent st))"
  by (cases e) (auto simp: broadcast_def)

lemma wired_cases:
  "x \<in> set (wired s es) \<Longrightarrow>
     x \<in> set es \<or> (\<exists>c m. x = WsSend c (MessageEvent m)) \<or> (\<exists>c st. x = WsSend c (StatusEvent st))"
  by (auto simp: wired_def dest: wire_cases)

lemma login_no_send: "x \<in> set (fst (snd (login a c r))) \<Longrightarrow> x \<noteq> WsSend w m"
  by (cases r) (auto simp: login_def setupMessageListener_def Let_def split: option.splits)

lemma handleLogin_sends:
  "WsSend c m \<in> set (snd (handleLogin s cmd w r)) \<Longrightarrow>
     (\<exists>i. m = MessageEvent i) \<or> (\<exists>st. m = StatusEvent st) \<or> (c = w \<and> (\<exists>b e. m = LoginEvent b e))"
  by (auto simp: handleLogin_def Let_def case_prod_beta login_result_def
        split: sum.splits option.splits dest!: wired_cases dest: login_no_send)

lemma handleCommand_sends:
  "WsSend c m \<in> set (fst (snd (handleCommand s cmd w r))) \<Longrightarrow>
     (\<exists>i. m = MessageEvent i) \<or> (\<exists>st. m = StatusEvent st) \<or> (c = w \<and> (\<exists>b e. m = LoginEvent b e))"
  by (auto simp: handleCommand_def case_prod_beta sendMessage_def sendTypingEvent_def
        split: sum.splits option.splits if_splits reply.splits dest: handleLogin_sends)

lemma on_message_sends:
  "WsSend c m \<in> set (snd (on_message s w f r)) \<Longrightarrow>
     (\<exists>i. m = MessageEvent i) \<or> (\<exists>st. m = StatusEvent st) \<or> c = w"
  by (auto simp: on_message_def case_prod_beta split: frame.splits sum.splits
        dest: handleCommand_sends)

lemma teardown_sends:
  "WsSend c m \<in> set (snd (on_close s w)) \<or> WsSend c m \<in> set (snd (on_error s w)) \<Longrightarrow>
     (\<exists>i. m = MessageEvent i) \<or> (\<exists>st. m = StatusEvent st)"
  by (auto simp: on_close_def on_error_def Let_def disconnect_def
        split: option.splits if_splits dest!: wired_cases)

lemma step_sends:
  "WsSend c m \<in> set (snd (step s ev)) \<Longrightarrow>
     (\<exists>i. m = MessageEvent i) \<or> (\<exists>st. m = StatusEvent st) \<or> (\<exists>f r. ev = WsMessage c f r)"
proof (cases ev)
  case (WsMessage w f r)
  assume "WsSend c m \<in> set (snd (step s ev))"
  with WsMessage show ?thesis using on_message_sends [of c m s w f r] by auto
next
  case (WsClose w)
  assume "WsSend c m \<in> set (snd (step s ev))"
  with WsClose show ?thesis
    using teardown_sends [of c m "s\<lparr> readyState := (readyState s)(w := CLOSED) \<rparr>" w] by auto
next
  case (WsError w)
  assume "WsSend c m \<in> set (snd (step s ev))"
  with WsError show ?thesis using teardown_sends [of c m s w] by auto
qed (auto simp: on_connection_def on_listener_message_def on_listener_error_def
       split: option.splits dest!: wired_cases)

lemma broadcast_count:
  "distinct xs \<Longrightarrow>
   count_list (map (\<lambda>x. WsSend x msg) (filter P xs)) (WsSend c msg)
     = (if c \<in> set xs \<and> P c then 1 else 0)"
  by (induction xs) auto



text \<open>
  Claim C10. A login that fails in the no-session state leaves the adapter that
  \<open>handleLogin\<close> built: the server holds an adapter without a handle, the requester
  alone gets the failure result (the status \<open>disconnected\<close> goes to every open client),
  and from then on a \<open>send\<close> command of any client is routed to that adapter, whose
  NotLoggedIn error the message handler catches and reports to that client as an
  \<open>error\<close> event.
\<close>

theorem failed_login_keeps_adapter:
  assumes "zaloClient s = None"
    and "get_prop cmd ''type'' = Inr (JStr ''login'')"
  shows "(case on_message s w (Parsed cmd) (Reject err) of
            (s', effs) \<Rightarrow>
              zaloClient s' = Some \<lparr> zalo = Some \<lparr> selfListen = False, checkUpdate = False, logging = True \<rparr>,
                                     api = None \<rparr>
              \<and> clients s' = clients s
              \<and> effs = [NewZaloClient,
                         VendorLogin \<lparr> cookie = opt_chain cmd ''cookie'', imei = opt_chain cmd ''imei'',
                                       userAgent = opt_chain cmd ''userAgent'' \<rparr>,
                         OnStatus ''disconnected'']
                        @ broadcast s (StatusEvent ''disconnected'')
                        @ [WsSend w (LoginEvent False (Some err))]
              \<and> (\<forall>w2 cmd2 r2. get_prop cmd2 ''type'' = Inr (JStr ''send'') \<longrightarrow>
                    on_message s' w2 (Parsed cmd2) r2
                      = (s', [WsSend w2 (ErrorEvent ''Error: Not logged in to Zalo'')])))"
  using assms
  by (simp add: on_message_def handleCommand_def handleLogin_def credentials_of_object login_def
        login_result_def wired_simps sendMessage_def new_ZaloClient_def)

theorem failed_login_keeps_adapter_witness:
  "zaloClient (fst (run initial [Connection 1, Connection 2])) = None
   \<and> get_prop login_cmd ''type'' = Inr (JStr ''login'')
   \<and> snd (run initial [Connection 1, Connection 2,
                       WsMessage 1 (Parsed login_cmd) (Reject ''bad cookie''),
                       WsMessage 2 (Parsed send_cmd) (Resolve 0)])
       = [NewZaloClient,
          VendorLogin \<lparr> cookie = JArr [], imei = JStr ''i1'', userAgent = JStr ''ua'' \<rparr>,
          OnStatus ''disconnected'',
          WsSend 1 (StatusEvent ''disconnected''), WsSend 2 (StatusEvent ''disconnected''),
          WsSend 1 (LoginEvent False (Some ''bad cookie'')),
          WsSend 2 (ErrorEvent ''Error: Not logged in to Zalo'')]"
proof -
  have h1: "zaloClient (fst (run initial [Connection 1, Connection 2])) = None"
    by (simp add: initial_def on_connection_def)
  have h2: "get_prop login_cmd ''type'' = Inr (JStr ''login'')"
    by simp
  show ?thesis
    using h1 h2 failed_login_keeps_adapter [OF h1 h2, of 1 "''bad cookie''"]
    by (simp add: handler_defs)
qed

text \<open>
  Claim C5, as the code has it. A frame that is not JSON, and a frame that parses to
  \<open>null\<close> (so that reading its type throws), produce exactly one \<open>error\<close> event, sent to
  the originating client. A parsed frame whose type is none of \<open>login\<close>, \<open>send\<close> and
  \<open>typing\<close> is ignored: nothing is sent. Whatever the frame, the message handler leaves
  the client set and the state of every socket as they were, and an \<open>error\<close> event never
  goes to another client than the originating one.
\<close>

theorem protocol_errors:
  "on_message s w (Unparsable m) r = (s, [WsSend w (ErrorEvent (''SyntaxError: '' @ m))])
   \<and> (\<forall>e. get_prop cmd ''type'' = Inl e \<longrightarrow>
         on_message s w (Parsed cmd) r = (s, [WsSend w (ErrorEvent (error_string e))]))
   \<and> (\<forall>ty. get_prop cmd ''type'' = Inr ty \<and> ty \<noteq> JStr ''login'' \<and> ty \<noteq> JStr ''send''
             \<and> ty \<noteq> JStr ''typing'' \<longrightarrow>
         on_message s w (Parsed cmd) r = (s, []))
   \<and> clients (fst (on_message s w f r)) = clients s
   \<and> readyState (fst (on_message s w f r)) = readyState s
   \<and> (\<forall>c x. WsSend c (ErrorEvent x) \<in> set (snd (on_message s w f r)) \<longrightarrow> c = w)"
  by (auto simp: on_message_sockets dest: on_message_sends)
     (auto simp: on_message_def handleCommand_def)

theorem protocol_errors_witness:
  "snd (on_message (fst (run initial [Connection 1, Connection 2])) 1 (Parsed JNull) (Resolve 0))
     = [WsSend 1 (ErrorEvent ''TypeError: Cannot read properties of null (reading 'type')'')]
   \<and> snd (on_message (fst (run initial [Connection 1, Connection 2])) 1 (Unparsable ''Unexpected end of JSON input'') (Resolve 0))
     = [WsSend 1 (ErrorEvent ''SyntaxError: Unexpected end of JSON input'')]
   \<and> snd (on_message (fst (run initial [Connection 1, Connection 2])) 1 (Parsed ping_cmd) (Resolve 0)) = []
   \<and> clients (fst (on_message (fst (run initial [Connection 1, Connection 2])) 1 (Parsed JNull) (Resolve 0))) = [1, 2]"
  using protocol_errors [of "fst (run initial [Connection 1, Connection 2])" 1
      "''Unexpected end of JSON input''" "Resolve 0" JNull "Parsed JNull"]
    protocol_errors [of "fst (run initial [Connection 1, Connection 2])" 1
      "''Unexpected end of JSON input''" "Resolve 0" ping_cmd "Parsed JNull"]
  by (simp add: handler_defs)

text \<open>
  Against claim C5 as it was stated: a client that has connected sends the well-formed
  JSON frame \<open>{"type": "ping"}\<close>, which is none of the three commands, and no event at
  all is sent.
\<close>

theorem unknown_command_ignored:
  "snd (run initial [Connection 1, WsMessage 1 (Parsed ping_cmd) (Resolve 0)]) = []"
  by (simp add: handler_defs)

text \<open>
  Claim C7, as the code has it. In every state the server can reach, \<open>broadcast\<close> sends
  the one event exactly once to every member of the client set whose socket is
  \<open>OPEN\<close>, and to no other socket: a member whose socket is not open is skipped, and a
  socket that has left the set gets nothing. The messages and the errors the vendor's
  listener reports are forwarded by \<open>broadcast\<close>. What a step sends to a single socket only, a
  login result or an \<open>error\<close> event, goes to the socket whose frame the step handles.
\<close>

theorem broadcast_delivery:
  assumes "s = fst (run initial t)"
  shows "(\<forall>c. count_list (broadcast s msg) (WsSend c msg)
               = (if c \<in> set (clients s) \<and> readyState s c = OPEN then 1 else 0))
         \<and> (\<forall>e \<in> set (broadcast s msg). \<exists>c. e = WsSend c msg)
         \<and> (logged_in s \<longrightarrow>
              snd (step s (ListenerMessage now raw))
                = concat (map (\<lambda>m. OnMessage m # broadcast s (MessageEvent m))
                            (snd (message_handler now raw))))
         \<and> (logged_in s \<longrightarrow>
              snd (step s ListenerError) = OnStatus ''error'' # broadcast s (StatusEvent ''error''))
         \<and> (\<forall>c b x. WsSend c (LoginEvent b x) \<in> set (snd (step s ev)) \<longrightarrow> (\<exists>f r. ev = WsMessage c f r))
         \<and> (\<forall>c x. WsSend c (ErrorEvent x) \<in> set (snd (step s ev)) \<longrightarrow> (\<exists>f r. ev = WsMessage c f r))"
proof -
  have d: "distinct (clients s)"
    unfolding assms by (rule run_distinct) (simp add: initial_def)
  have 1: "\<forall>c. count_list (broadcast s msg) (WsSend c msg)
               = (if c \<in> set (clients s) \<and> readyState s c = OPEN then 1 else 0)"
    unfolding broadcast_def using broadcast_count [OF d] by simp
  have 2: "\<forall>e \<in> set (broadcast s msg). \<exists>c. e = WsSend c msg"
    by (auto simp: broadcast_def)
  have 3: "logged_in s \<longrightarrow>
              snd (step s (ListenerMessage now raw))
                = concat (map (\<lambda>m. OnMessage m # broadcast s (MessageEvent m))
                            (snd (message_handler now raw)))"
    by (auto simp: logged_in_def on_listener_message_def wired_def comp_def split: option.splits)
  have 4: "\<forall>c b x. WsSend c (LoginEvent b x) \<in> set (snd (step s ev)) \<longrightarrow> (\<exists>f r. ev = WsMessage c f r)"
    using step_sends [of _ _ s ev] by blast
  have 5: "\<forall>c x. WsSend c (ErrorEvent x) \<in> set (snd (step s ev)) \<longrightarrow> (\<exists>f r. ev = WsMessage c f r)"
    using step_sends [of _ _ s ev] by blast
  have 6: "logged_in s \<longrightarrow>
              snd (step s ListenerError) = OnStatus ''error'' # broadcast s (StatusEvent ''error'')"
    by (auto simp: logged_in_def on_listener_error_def wired_def split: option.splits)
  from 1 2 3 4 5 6 show ?thesis by blast
qed

theorem broadcast_delivery_witness:
  "clients (fst (run initial [Connection 1, Connection 2, Connection 3,
                              WsMessage 1 (Parsed login_cmd) (Resolve 7), WsClose 3])) = [1, 2]
   \<and> snd (step (fst (run initial [Connection 1, Connection 2, Connection 3,
                              WsMessage 1 (Parsed login_cmd) (Resolve 7), WsClose 3]))
            (ListenerMessage 1700000000500 text_event))
       = [OnMessage \<lparr> senderId = JStr ''8001'', threadId = JStr ''g42'', content = Text ''hello'',
                      messageId = JStr ''m1'', timestamp = Fin 1700000000000, isGroup = True \<rparr>,
          WsSend 1 (MessageEvent \<lparr> senderId = JStr ''8001'', threadId = JStr ''g42'', content = Text ''hello'',
                      messageId = JStr ''m1'', timestamp = Fin 1700000000000, isGroup = True \<rparr>),
          WsSend 2 (MessageEvent \<lparr> senderId = JStr ''8001'', threadId = JStr ''g42'', content = Text ''hello'',
                      messageId = JStr ''m1'', timestamp = Fin 1700000000000, isGroup = True \<rparr>)]
   \<and> snd (step (fst (run initial [Connection 1, Connection 2, Connection 3,
                              WsMessage 1 (Parsed login_cmd) (Resolve 7), WsClose 3]))
            (WsMessage 2 (Parsed login_cmd) (Reject ''bad cookie'')))
       = [VendorLogin \<lparr> cookie = JArr [], imei = JStr ''i1'', userAgent = JStr ''ua'' \<rparr>,
          OnStatus ''disconnected'',
          WsSend 1 (StatusEvent ''disconnected''), WsSend 2 (StatusEvent ''disconnected''),
          WsSend 2 (LoginEvent False (Some ''bad cookie''))]
   \<and> snd (step (fst (run initial [Connection 1, Connection 2, Connection 3,
                              WsMessage 1 (Parsed login_cmd) (Resolve 7), WsClose 3]))
            (WsMessage 2 (Unparsable ''Unexpected end of JSON input'') (Resolve 0)))
       = [WsSend 2 (ErrorEvent ''SyntaxError: Unexpected end of JSON input'')]
   \<and> snd (step (fst (run initial [Connection 1, Connection 2, Connection 3,
                              WsMessage 1 (Parsed login_cmd) (Resolve 7), WsClose 3]))
            ListenerError)
       = [OnStatus ''error'', WsSend 1 (StatusEvent ''error''), WsSend 2 (StatusEvent ''error'')]"
  using broadcast_delivery [OF refl, of "[Connection 1, Connection 2, Connection 3,
                              WsMessage 1 (Parsed login_cmd) (Resolve 7), WsClose 3]"
      "StatusEvent ''disconnected''" 1700000000500 text_event
      "WsMessage 2 (Parsed login_cmd) (Reject ''bad cookie'')"]
    broadcast_delivery [OF refl, of "[Connection 1, Connection 2, Connection 3,
                              WsMessage 1 (Parsed login_cmd) (Resolve 7), WsClose 3]"
      "StatusEvent ''disconnected''" 1700000000500 text_event
      "WsMessage 2 (Unparsable ''Unexpected end of JSON input'') (Resolve 0)"]
  by (simp add: handler_defs adapter_defs timestamp_text)

text \<open>
  Against claim C7 as it was stated: two clients are connected, the second socket has
  begun to close and has not yet reported its \<open>close\<close> event, so it is still a member of
  the client set; a status event is broadcast, and only the first client is sent it.
\<close>

theorem closing_client_skipped:
  "clients (fst (run initial [Connection 1, Connection 2, WsMessage 1 (Parsed login_cmd) (Resolve 7),
                              ReadyState 2 CLOSING])) = [1, 2]
   \<and> snd (step (fst (run initial [Connection 1, Connection 2, WsMessage 1 (Parsed login_cmd) (Resolve 7),
                              ReadyState 2 CLOSING])) ListenerError)
       = [OnStatus ''error'', WsSend 1 (StatusEvent ''error'')]"
  by (simp add: handler_defs)

section \<open>Properties of the server between its awaits\<close>

subsection \<open>Handlers in one step and handlers between their awaits\<close>

text \<open>
  The functions of the adapter are their two halves, one after the other.
\<close>

lemma login_split:
  "login a c r =
     (case login_begin a c of
        (a1, e1) \<Rightarrow> (case login_resume a1 r of (a2, e2, res) \<Rightarrow> (a2, e1 @ e2, res)))"
  by (cases r) (simp_all add: login_def login_begin_def login_resume_def Let_def)

lemma sendMessage_split:
  "sendMessage a th tx ty r =
     (case sendMessage_begin a th tx ty of
        (effs, Inl e) \<Rightarrow> (effs, Inl e)
      | (effs, Inr u) \<Rightarrow> (effs, sendMessage_resume r))"
  by (cases r)
     (simp_all add: sendMessage_def sendMessage_begin_def sendMessage_resume_def
        split: option.splits sum.splits)

lemma wired_sockets:
  "clients s = clients s' \<Longrightarrow> readyState s = readyState s' \<Longrightarrow> wired s es = wired s' es"
proof (induction es)
  case Nil
  then show ?case by (simp add: wired_def)
next
  case (Cons e es)
  then have "wire s e = wire s' e" by (cases e) (simp_all add: broadcast_def)
  with Cons show ?case by (simp add: wired_def)
qed

lemma server_of_simps:
  "clients (server_of p) = clientSet p"
  "readyState (server_of p) = readyStates p"
  "zaloClient (server_of p) = (case zaloRef p of None \<Rightarrow> None | Some i \<Rightarrow> Some (heap p i))"
  by (simp_all add: server_of_def)

lemma server_of_eq:
  "server_of p = s \<longleftrightarrow>
     zaloClient s = (case zaloRef p of None \<Rightarrow> None | Some i \<Rightarrow> Some (heap p i))
     \<and> clients s = clientSet p \<and> readyState s = readyStates p"
  by (cases s) (auto simp: server_of_def)

lemma wired_server_of:
  "clientSet p = clientSet p' \<Longrightarrow> readyStates p = readyStates p' \<Longrightarrow>
   wired (server_of p) es = wired (server_of p') es"
  by (rule wired_sockets) (simp_all add: server_of_simps)

lemma ensure_adapter_facts:
  assumes "ensure_adapter p = (p1, i, new)"
  shows "zaloRef p1 = Some i"
    and "heap p1 i = (case zaloClient (server_of p) of None \<Rightarrow> new_ZaloClient | Some a \<Rightarrow> a)"
    and "new = (case zaloClient (server_of p) of None \<Rightarrow> [NewZaloClient] | Some a \<Rightarrow> [])"
    and "clientSet p1 = clientSet p" and "readyStates p1 = readyStates p"
    and "awaiting p1 = awaiting p" and "listeners p1 = listeners p"
  using assms by (auto simp: ensure_adapter_def server_of_def split: option.splits)

lemma handleLogin_settled:
  assumes "awaiting p = []"
  shows "(case handleLogin_begin p cmd w of
            (p1, e1) \<Rightarrow>
              (case astep p1 (ASettle 0 r) of
                 (p2, e2) \<Rightarrow>
                   server_of p2 = fst (handleLogin (server_of p) cmd w r)
                   \<and> e1 @ e2 = snd (handleLogin (server_of p) cmd w r)
                   \<and> awaiting p2 = []))"
proof -
  obtain p1 i new where ea: "ensure_adapter p = (p1, i, new)"
    by (cases "ensure_adapter p") auto
  note f = ensure_adapter_facts [OF ea]
  let ?a0 = "case zaloClient (server_of p) of None \<Rightarrow> new_ZaloClient | Some a \<Rightarrow> a"
  show ?thesis
  proof (cases "credentials_of cmd")
    case (Inl e)
    then show ?thesis
      using ea f assms
      by (simp add: handleLogin_begin_def handleLogin_def Let_def server_of_eq server_of_simps)
  next
    case (Inr c)
    obtain a2 e2 res where lr: "login_resume (fst (login_begin ?a0 c)) r = (a2, e2, res)"
      by (cases "login_resume (fst (login_begin ?a0 c)) r") auto
    have l: "login ?a0 c r = (a2, VendorLogin c # e2, res)"
      using lr by (simp add: login_split login_begin_def)
    let ?p2 = "p1\<lparr> heap := (heap p1)(i := fst (login_begin ?a0 c)), awaiting := [] \<rparr>"
    have w: "wired (server_of ?p2) e2 = wired (server_of p) e2"
      by (rule wired_server_of) (simp_all add: f)
    have b: "handleLogin_begin p cmd w
               = (p1\<lparr> heap := (heap p1)(i := fst (login_begin ?a0 c)), awaiting := [AwaitLogin i w] \<rparr>,
                  new @ [VendorLogin c])"
      using ea Inr f assms by (simp add: handleLogin_begin_def login_begin_def)
    show ?thesis
      unfolding b
      using Inr l lr f w
      by (simp add: handleLogin_def Let_def server_of_eq server_of_simps wired_simps)
  qed
qed

text \<open>
  A frame whose call of the vendor settles before anything else happens is the
  message handler run in one step.
\<close>

lemma message_settled:
  assumes "awaiting p = []"
  shows "(case astep p (AFrame w f) of
            (p1, e1) \<Rightarrow>
              (case astep p1 (ASettle 0 r) of
                 (p2, e2) \<Rightarrow>
                   server_of p2 = fst (step (server_of p) (WsMessage w f r))
                   \<and> e1 @ e2 = snd (step (server_of p) (WsMessage w f r))
                   \<and> awaiting p2 = []))"
proof (cases f)
  case (Unparsable m)
  with assms show ?thesis by (simp add: message_begin_def on_message_def)
next
  case (Parsed cmd)
  show ?thesis
  proof (cases "get_prop cmd ''type''")
    case (Inl e)
    with Parsed assms show ?thesis
      by (simp add: message_begin_def on_message_def handleCommand_begin_def handleCommand_def)
  next
    case (Inr ty)
    consider (login) "ty = JStr ''login''"
      | (send) a where "ty = JStr ''send''" "zaloClient (server_of p) = Some a"
      | (typing) a where "ty = JStr ''typing''" "zaloClient (server_of p) = Some a"
      | (other) "ty \<noteq> JStr ''login''"
          "\<not> (ty = JStr ''send'' \<and> zaloClient (server_of p) \<noteq> None)"
          "\<not> (ty = JStr ''typing'' \<and> zaloClient (server_of p) \<noteq> None)"
      by (cases "zaloClient (server_of p)") auto
    then show ?thesis
    proof cases
      case login
      obtain p1 e1 where b: "handleLogin_begin p cmd w = (p1, e1)"
        by (cases "handleLogin_begin p cmd w") auto
      from handleLogin_settled [OF assms, of cmd w r] b Parsed Inr login
      show ?thesis
        by (simp add: message_begin_def on_message_def handleCommand_begin_def handleCommand_def
              case_prod_beta)
    next
      case send
      then obtain i where i: "zaloRef p = Some i" "heap p i = a"
        by (auto simp: server_of_simps split: option.splits)
      from send i Parsed Inr assms show ?thesis
        by (cases "sendMessage_begin a (opt_chain cmd ''to'') (opt_chain cmd ''text'') JUndefined";
            cases r)
           (auto simp: message_begin_def on_message_def handleCommand_begin_def handleCommand_def
              sendMessage_split sendMessage_resume_def server_of_eq server_of_simps
              split: sum.splits)
    next
      case typing
      then obtain i where i: "zaloRef p = Some i" "heap p i = a"
        by (auto simp: server_of_simps split: option.splits)
      from typing i Parsed Inr assms show ?thesis
        by (cases "api a"; cases r)
           (auto simp: message_begin_def on_message_def handleCommand_begin_def handleCommand_def
              sendTypingEvent_def server_of_eq server_of_simps)
    next
      case other
      with Parsed Inr assms show ?thesis
        by (auto simp: message_begin_def on_message_def handleCommand_begin_def handleCommand_def
              server_of_simps split: option.splits)
    qed
  qed
qed

text \<open>The other events of a socket are the same step in both.\<close>

lemma close_handler_on_close:
  "server_of (fst (close_handler p w)) = fst (on_close (server_of p) w)
   \<and> snd (close_handler p w) = snd (on_close (server_of p) w)
   \<and> awaiting (fst (close_handler p w)) = awaiting p"
  by (cases "zaloRef p")
     (auto simp: close_handler_def on_close_def Let_def server_of_eq server_of_simps disconnect_def
        intro!: wired_sockets)

lemma socket_steps:
  "server_of (fst (astep p (AConnection w))) = fst (step (server_of p) (Connection w))"
  "snd (astep p (AConnection w)) = snd (step (server_of p) (Connection w))"
  "server_of (fst (astep p (AClose w))) = fst (step (server_of p) (WsClose w))"
  "snd (astep p (AClose w)) = snd (step (server_of p) (WsClose w))"
  "server_of (fst (astep p (AError w))) = fst (step (server_of p) (WsError w))"
  "snd (astep p (AError w)) = snd (step (server_of p) (WsError w))"
  "server_of (fst (astep p (AReadyState w rs))) = fst (step (server_of p) (ReadyState w rs))"
  "snd (astep p (AReadyState w rs)) = snd (step (server_of p) (ReadyState w rs))"
proof -
  have c: "server_of (p\<lparr> readyStates := (readyStates p)(w := CLOSED) \<rparr>)
             = (server_of p)\<lparr> readyState := (readyState (server_of p))(w := CLOSED) \<rparr>"
    by (simp add: server_of_eq server_of_simps split: option.splits)
  show "server_of (fst (astep p (AConnection w))) = fst (step (server_of p) (Connection w))"
    by (simp add: server_of_eq server_of_simps on_connection_def split: option.splits)
  show "snd (astep p (AConnection w)) = snd (step (server_of p) (Connection w))"
    by (simp add: on_connection_def)
  show "server_of (fst (astep p (AClose w))) = fst (step (server_of p) (WsClose w))"
    using close_handler_on_close [of "p\<lparr> readyStates := (readyStates p)(w := CLOSED) \<rparr>" w]
    by (simp add: c)
  show "snd (astep p (AClose w)) = snd (step (server_of p) (WsClose w))"
    using close_handler_on_close [of "p\<lparr> readyStates := (readyStates p)(w := CLOSED) \<rparr>" w]
    by (simp add: c)
  show "server_of (fst (astep p (AError w))) = fst (step (server_of p) (WsError w))"
    using close_handler_on_close [of p w] by (simp add: on_error_def on_close_def)
  show "snd (astep p (AError w)) = snd (step (server_of p) (WsError w))"
    using close_handler_on_close [of p w] by (simp add: on_error_def on_close_def)
  show "server_of (fst (astep p (AReadyState w rs))) = fst (step (server_of p) (ReadyState w rs))"
    by (simp add: server_of_eq server_of_simps split: option.splits)
  show "snd (astep p (AReadyState w rs)) = snd (step (server_of p) (ReadyState w rs))"
    by simp
qed

text \<open>
  So a run of the server that handles a frame in one step is a run of the server with
  its awaits, in which every call of the vendor settles before the next event; and a
  message or an error of the listener is handled alike in both while the server holds
  an adapter with a handle and the listener of the handle runs.
\<close>

lemma arun_append:
  "arun p (xs @ ys) =
     (case arun p xs of (p1, e1) \<Rightarrow> (case arun p1 ys of (p2, e2) \<Rightarrow> (p2, e1 @ e2)))"
  by (induction xs arbitrary: p) (simp_all add: case_prod_beta)

lemma event_at_once:
  assumes "socket_event e" and "awaiting p = []"
  shows "server_of (fst (arun p (at_once e))) = fst (step (server_of p) e)
         \<and> snd (arun p (at_once e)) = snd (step (server_of p) e)
         \<and> awaiting (fst (arun p (at_once e))) = []"
proof (cases e)
  case (Connection w)
  with assms(2) show ?thesis using socket_steps(1,2) [of p w] by simp
next
  case (WsMessage w f r)
  with message_settled [OF assms(2), of w f r] show ?thesis
    by (simp add: case_prod_beta)
next
  case (WsClose w)
  with assms(2) show ?thesis
    using socket_steps(3,4) [of p w]
      close_handler_on_close [of "p\<lparr> readyStates := (readyStates p)(w := CLOSED) \<rparr>" w]
    by simp
next
  case (WsError w)
  with assms(2) show ?thesis
    using socket_steps(5,6) [of p w] close_handler_on_close [of p w] by simp
next
  case (ReadyState w rs)
  with assms(2) show ?thesis using socket_steps(7,8) [of p w rs] by simp
next
  case (ListenerMessage now m)
  with assms(1) show ?thesis by simp
next
  case ListenerError
  with assms(1) show ?thesis by simp
qed

lemma runs_settled_at_once:
  assumes "list_all socket_event es" and "awaiting p = []"
  shows "server_of (fst (arun p (concat (map at_once es)))) = fst (run (server_of p) es)
         \<and> snd (arun p (concat (map at_once es))) = snd (run (server_of p) es)
         \<and> awaiting (fst (arun p (concat (map at_once es)))) = []"
  using assms
proof (induction es arbitrary: p)
  case Nil
  then show ?case by simp
next
  case (Cons e es)
  from Cons.prems have se: "socket_event e" and ses: "list_all socket_event es" by simp_all
  note 1 = event_at_once [OF se Cons.prems(2)]
  from 1 have aw: "awaiting (fst (arun p (at_once e))) = []" by simp
  note 2 = Cons.IH [OF ses aw]
  from 1 2 show ?case
    by (simp add: arun_append case_prod_beta)
qed

lemma listener_steps:
  assumes "h \<in> set (listeners p)" and "holds_handle p"
  shows "astep p (AListenerMessage h now m) = (p, snd (step (server_of p) (ListenerMessage now m)))"
    and "astep p (AListenerError h) = (p, snd (step (server_of p) ListenerError))"
  using assms
  by (auto simp: holds_handle_def logged_in_def on_listener_message_def on_listener_error_def
        split: option.splits)

text \<open>While the server holds no adapter, a send or a typing command does nothing here either.\<close>

lemma message_begin_no_session:
  assumes "zaloRef p = None"
    and "get_prop cmd ''type'' = Inr (JStr ''send'') \<or> get_prop cmd ''type'' = Inr (JStr ''typing'')"
  shows "message_begin p w (Parsed cmd) = (p, [])"
  using assms by (auto simp: message_begin_def handleCommand_begin_def)

subsection \<open>The life of the session\<close>

lemma ensure_adapter_simps:
  "clientSet (fst (ensure_adapter p)) = clientSet p"
  "zaloRef (fst (ensure_adapter p)) \<noteq> None"
  "zaloRef (fst (ensure_adapter p)) = Some (fst (snd (ensure_adapter p)))"
  "snd (snd (ensure_adapter p)) = (if zaloRef p = None then [NewZaloClient] else [])"
  by (auto simp: ensure_adapter_def split: option.splits)

lemma handleLogin_begin_simps:
  "clientSet (fst (handleLogin_begin p cmd w)) = clientSet p"
  "zaloRef (fst (handleLogin_begin p cmd w)) = zaloRef (fst (ensure_adapter p))"
  by (simp_all add: handleLogin_begin_def case_prod_beta ensure_adapter_simps split: sum.splits)

lemma handleCommand_begin_clients:
  "clientSet (fst (handleCommand_begin p cmd w)) = clientSet p"
  by (simp add: handleCommand_begin_def handleLogin_begin_simps case_prod_beta
        split: sum.splits option.splits)

lemma message_begin_clients: "clientSet (fst (message_begin p w f)) = clientSet p"
  by (simp add: message_begin_def handleCommand_begin_clients case_prod_beta
        split: frame.splits sum.splits)

lemma resume_clients: "clientSet (fst (resume p x r)) = clientSet p"
  by (cases x) (simp_all add: case_prod_beta split: sum.splits)

lemma resume_ref: "zaloRef (fst (resume p x r)) = zaloRef p"
  by (cases x) (simp_all add: case_prod_beta split: sum.splits)

lemma close_handler_clients: "clientSet (fst (close_handler p w)) = set_delete w (clientSet p)"
  by (simp add: close_handler_def Let_def case_prod_beta split: option.splits)

lemma close_handler_ref:
  "zaloRef (fst (close_handler p w)) = (if set_delete w (clientSet p) = [] then None else zaloRef p)"
  by (simp add: close_handler_def Let_def case_prod_beta split: option.splits)

lemma astep_clients:
  "clientSet (fst (astep p e)) =
     (case e of
        AConnection w \<Rightarrow> set_add w (clientSet p)
      | AClose w \<Rightarrow> set_delete w (clientSet p)
      | AError w \<Rightarrow> set_delete w (clientSet p)
      | _ \<Rightarrow> clientSet p)"
  by (cases e) (simp_all add: message_begin_clients resume_clients close_handler_clients)

lemma message_begin_ref:
  "(zaloRef (fst (message_begin p w f)) = None) = (zaloRef p = None \<and> \<not> is_login_frame f)"
  by (auto simp: message_begin_def handleCommand_begin_def handleLogin_begin_simps
        ensure_adapter_simps is_login_frame_def case_prod_beta
        split: frame.splits sum.splits option.splits)

lemma astep_ref:
  "(zaloRef (fst (astep p e)) = None) =
     (case e of
        AFrame w f \<Rightarrow> zaloRef p = None \<and> \<not> is_login_frame f
      | AClose w \<Rightarrow> zaloRef p = None \<or> set_delete w (clientSet p) = []
      | AError w \<Rightarrow> zaloRef p = None \<or> set_delete w (clientSet p) = []
      | _ \<Rightarrow> zaloRef p = None)"
  by (cases e) (simp_all add: message_begin_ref resume_ref close_handler_ref)

lemma holds_handle_eq:
  "holds_handle p = (case zaloRef p of None \<Rightarrow> False | Some i \<Rightarrow> api (heap p i) \<noteq> None)"
  by (simp add: holds_handle_def logged_in_def server_of_def split: option.splits)

lemma message_begin_handle: "holds_handle (fst (message_begin p w f)) = holds_handle p"
  by (auto simp: holds_handle_eq message_begin_def handleCommand_begin_def handleLogin_begin_def
        ensure_adapter_def login_begin_def new_ZaloClient_def case_prod_beta
        split: frame.splits sum.splits option.splits)

lemma settle_handle:
  assumes "k < length (awaiting p)"
  shows "holds_handle (fst (astep p (ASettle k r))) = (holds_handle p \<or> login_resolved p (ASettle k r))"
proof (cases "awaiting p ! k")
  case (AwaitLogin i w)
  with assms show ?thesis
    by (cases r; cases "zaloRef p")
       (auto simp: holds_handle_eq login_resume_def Let_def)
next
  case (AwaitSend w)
  with assms show ?thesis
    by (cases r) (simp_all add: holds_handle_eq sendMessage_resume_def split: option.splits)
next
  case AwaitTyping
  with assms show ?thesis by (cases r) (simp_all add: holds_handle_eq split: option.splits)
qed

lemma close_handler_handle:
  "holds_handle (fst (close_handler p w)) = (holds_handle p \<and> set_delete w (clientSet p) \<noteq> [])"
  by (auto simp: holds_handle_eq close_handler_def Let_def disconnect_def split: option.splits)

lemma astep_handle:
  assumes "enabled p e"
  shows "holds_handle (fst (astep p e)) =
     (case e of
        ASettle k r \<Rightarrow> holds_handle p \<or> login_resolved p e
      | AClose w \<Rightarrow> holds_handle p \<and> set_delete w (clientSet p) \<noteq> []
      | AError w \<Rightarrow> holds_handle p \<and> set_delete w (clientSet p) \<noteq> []
      | _ \<Rightarrow> holds_handle p)"
proof (cases e)
  case (AFrame w f)
  then show ?thesis by (simp add: message_begin_handle)
next
  case (ASettle k r)
  with assms show ?thesis using settle_handle [of k p r] by simp
next
  case (AClose w)
  then show ?thesis
    using close_handler_handle [of "p\<lparr> readyStates := (readyStates p)(w := CLOSED) \<rparr>" w]
    by (simp add: holds_handle_eq split: option.splits)
next
  case (AError w)
  then show ?thesis by (simp add: close_handler_handle)
qed (simp_all add: holds_handle_eq split: option.splits)

text \<open>
  One step keeps the invariants: the server holds an adapter only while the client
  set is not empty, and the two answers of \<open>since_nonempty\<close> follow the adapter and its
  handle.
\<close>

lemma astep_inv_nonempty:
  assumes "enabled p e" and "zaloRef p \<noteq> None \<longrightarrow> clientSet p \<noteq> []"
  shows "zaloRef (fst (astep p e)) \<noteq> None \<longrightarrow> clientSet (fst (astep p e)) \<noteq> []"
  using assms astep_ref [of p e] astep_clients [of p e]
  by (cases e) (auto simp: set_add_nonempty)

lemma astep_inv_adapter:
  assumes "enabled p e" and "(zaloRef p \<noteq> None) = b" and "b \<longrightarrow> clientSet p \<noteq> []"
  shows "(zaloRef (fst (astep p e)) \<noteq> None)
           = ((b \<or> login_received p e) \<and> clientSet (fst (astep p e)) \<noteq> [])"
  using assms astep_ref [of p e] astep_clients [of p e]
  by (cases e) (auto simp: set_add_nonempty)

lemma astep_inv_handle:
  assumes "enabled p e" and "holds_handle p = b" and "zaloRef p \<noteq> None \<longrightarrow> clientSet p \<noteq> []"
  shows "holds_handle (fst (astep p e))
           = ((b \<or> login_resolved p e) \<and> clientSet (fst (astep p e)) \<noteq> [])"
proof -
  have h: "holds_handle p \<longrightarrow> clientSet p \<noteq> []"
    using assms(3) by (auto simp: holds_handle_eq split: option.splits)
  have r: "login_resolved p e \<longrightarrow> clientSet p \<noteq> []"
  proof (cases e)
    case (ASettle k r)
    with assms(3) show ?thesis by (cases r) (auto split: suspended.splits)
  qed simp_all
  show ?thesis
    using assms(2) h r astep_handle [OF assms(1)] astep_clients [of p e]
    by (cases e) (auto simp: set_add_nonempty)
qed

lemma arun_inv_adapter:
  assumes "admissible p t" and "(zaloRef p \<noteq> None) = b" and "b \<longrightarrow> clientSet p \<noteq> []"
  shows "(zaloRef (fst (arun p t)) \<noteq> None) = since_nonempty login_received p b t
         \<and> (zaloRef (fst (arun p t)) \<noteq> None \<longrightarrow> clientSet (fst (arun p t)) \<noteq> [])"
  using assms
proof (induction t arbitrary: p b)
  case Nil
  then show ?case by simp
next
  case (Cons e t)
  let ?p = "fst (astep p e)"
  let ?b = "(b \<or> login_received p e) \<and> clientSet ?p \<noteq> []"
  from Cons.prems have en: "enabled p e" and ad: "admissible ?p t" by simp_all
  have 1: "(zaloRef ?p \<noteq> None) = ?b"
    by (rule astep_inv_adapter [OF en Cons.prems(2) Cons.prems(3)])
  have 2: "?b \<longrightarrow> clientSet ?p \<noteq> []" by simp
  from Cons.IH [OF ad 1 2] show ?case by (simp add: case_prod_beta Let_def)
qed

lemma arun_inv_handle:
  assumes "admissible p t" and "holds_handle p = b" and "zaloRef p \<noteq> None \<longrightarrow> clientSet p \<noteq> []"
  shows "holds_handle (fst (arun p t)) = since_nonempty login_resolved p b t"
  using assms
proof (induction t arbitrary: p b)
  case Nil
  then show ?case by simp
next
  case (Cons e t)
  let ?p = "fst (astep p e)"
  let ?b = "(b \<or> login_resolved p e) \<and> clientSet ?p \<noteq> []"
  from Cons.prems have en: "enabled p e" and ad: "admissible ?p t" by simp_all
  have 1: "holds_handle ?p = ?b"
    by (rule astep_inv_handle [OF en Cons.prems(2) Cons.prems(3)])
  have 2: "zaloRef ?p \<noteq> None \<longrightarrow> clientSet ?p \<noteq> []"
    by (rule astep_inv_nonempty [OF en Cons.prems(3)])
  from Cons.IH [OF ad 1 2] show ?case by (simp add: case_prod_beta Let_def)
qed

text \<open>Adapters built and adapters disconnected, counted in the effects.\<close>

lemma broadcast_no_marker:
  "count_list (broadcast s m) NewZaloClient = 0" "count_list (broadcast s m) Disconnect = 0"
  by (simp_all add: broadcast_def count_list_0_iff image_iff)

lemma wire_marker:
  "count_list (wire s e) NewZaloClient = count_list [e] NewZaloClient"
  "count_list (wire s e) Disconnect = count_list [e] Disconnect"
  by (cases e; simp add: broadcast_no_marker)+

lemma wired_marker:
  "count_list (wired s es) NewZaloClient = count_list es NewZaloClient"
  "count_list (wired s es) Disconnect = count_list es Disconnect"
  using wire_marker [of s]
  by (induction es) (simp_all add: wired_def)

lemma map_OnMessage_marker:
  "count_list (map OnMessage ms) NewZaloClient = 0" "count_list (map OnMessage ms) Disconnect = 0"
  by (induction ms) simp_all

lemma login_resume_marker:
  "count_list (fst (snd (login_resume a r))) NewZaloClient = 0"
  "count_list (fst (snd (login_resume a r))) Disconnect = 0"
  by (cases r; simp add: login_resume_def Let_def setupMessageListener_def split: option.splits)+

lemma handleLogin_begin_marker:
  "count_list (snd (handleLogin_begin p cmd w)) NewZaloClient = (if zaloRef p = None then 1 else 0)"
  "count_list (snd (handleLogin_begin p cmd w)) Disconnect = 0"
  by (simp_all add: handleLogin_begin_def case_prod_beta ensure_adapter_simps login_begin_def
        split: sum.splits)

lemma message_begin_marker:
  "count_list (snd (message_begin p w f)) NewZaloClient
     = (if zaloRef p = None \<and> is_login_frame f then 1 else 0)"
  "count_list (snd (message_begin p w f)) Disconnect = 0"
  by (auto simp: message_begin_def handleCommand_begin_def is_login_frame_def case_prod_beta
        handleLogin_begin_marker sendMessage_begin_def
        split: frame.splits sum.splits option.splits)

lemma resume_marker:
  "count_list (snd (resume p x r)) NewZaloClient = 0"
  "count_list (snd (resume p x r)) Disconnect = 0"
  by (cases x; simp add: case_prod_beta wired_marker login_resume_marker split: sum.splits)+

lemma close_handler_marker:
  "count_list (snd (close_handler p w)) NewZaloClient = 0"
  "count_list (snd (close_handler p w)) Disconnect
     = (if zaloRef p \<noteq> None \<and> set_delete w (clientSet p) = [] then 1 else 0)"
  by (auto simp: close_handler_def Let_def case_prod_beta wired_marker disconnect_def
        split: option.splits)

lemma astep_new:
  "count_list (snd (astep p e)) NewZaloClient =
     (case e of
        AFrame w f \<Rightarrow> if zaloRef p = None \<and> is_login_frame f then 1 else 0
      | _ \<Rightarrow> 0)"
  by (cases e)
     (simp_all add: message_begin_marker resume_marker close_handler_marker wired_marker
        map_OnMessage_marker)

lemma astep_disconnect:
  "count_list (snd (astep p e)) Disconnect =
     (case e of
        AClose w \<Rightarrow> if zaloRef p \<noteq> None \<and> set_delete w (clientSet p) = [] then 1 else 0
      | AError w \<Rightarrow> if zaloRef p \<noteq> None \<and> set_delete w (clientSet p) = [] then 1 else 0
      | _ \<Rightarrow> 0)"
  by (cases e)
     (simp_all add: message_begin_marker resume_marker close_handler_marker wired_marker
        map_OnMessage_marker)

lemma astep_live:
  "count_list (snd (astep p e)) NewZaloClient + live p
     = count_list (snd (astep p e)) Disconnect + live (fst (astep p e))"
  using astep_ref [of p e] unfolding astep_new astep_disconnect live_def
  by (cases e) auto

lemma arun_live:
  "count_list (snd (arun p t)) NewZaloClient + live p
     = count_list (snd (arun p t)) Disconnect + live (fst (arun p t))"
proof (induction t arbitrary: p)
  case Nil
  then show ?case by simp
next
  case (Cons e t)
  from Cons.IH [of "fst (astep p e)"] astep_live [of p e]
  show ?case by (simp add: case_prod_beta)
qed

lemma astep_teardown:
  assumes "zaloRef p \<noteq> None \<longrightarrow> clientSet p \<noteq> []"
  shows "(Disconnect \<in> set (snd (astep p e)))
           = (zaloRef p \<noteq> None \<and> clientSet p \<noteq> [] \<and> clientSet (fst (astep p e)) = [])"
proof -
  have "(Disconnect \<in> set (snd (astep p e))) = (count_list (snd (astep p e)) Disconnect \<noteq> 0)"
    by (simp add: count_list_0_iff)
  also have "\<dots> = (zaloRef p \<noteq> None \<and> clientSet p \<noteq> [] \<and> clientSet (fst (astep p e)) = [])"
    using assms unfolding astep_disconnect astep_clients
    by (cases e) (auto simp: set_add_nonempty)
  finally show ?thesis .
qed

text \<open>The computed answer is the one of the definition in words.\<close>

lemma stays_nonempty_Cons:
  "stays_nonempty p (e # t)
     = (clientSet (fst (astep p e)) \<noteq> [] \<and> stays_nonempty (fst (astep p e)) t)"
proof
  assume a: "stays_nonempty p (e # t)"
  have 1: "clientSet (fst (astep p e)) \<noteq> []"
    using a [unfolded stays_nonempty_def, rule_format, of "[e]" t] by simp
  have 2: "stays_nonempty (fst (astep p e)) t"
    unfolding stays_nonempty_def
  proof (intro allI impI)
    fix q r
    assume "t = q @ r \<and> q \<noteq> []"
    then have "e # t = (e # q) @ r \<and> e # q \<noteq> []" by simp
    from a [unfolded stays_nonempty_def, rule_format, OF this]
    show "clientSet (fst (arun (fst (astep p e)) q)) \<noteq> []" by (simp add: case_prod_beta)
  qed
  from 1 2 show "clientSet (fst (astep p e)) \<noteq> [] \<and> stays_nonempty (fst (astep p e)) t" ..
next
  assume a: "clientSet (fst (astep p e)) \<noteq> [] \<and> stays_nonempty (fst (astep p e)) t"
  show "stays_nonempty p (e # t)"
    unfolding stays_nonempty_def
  proof (intro allI impI)
    fix q r
    assume h: "e # t = q @ r \<and> q \<noteq> []"
    then obtain q' where q: "q = e # q'" and t: "t = q' @ r"
      by (cases q) auto
    show "clientSet (fst (arun p q)) \<noteq> []"
    proof (cases "q' = []")
      case True
      with q a show ?thesis by (simp add: case_prod_beta)
    next
      case False
      with a t have "clientSet (fst (arun (fst (astep p e)) q')) \<noteq> []"
        unfolding stays_nonempty_def by blast
      with q show ?thesis by (simp add: case_prod_beta)
    qed
  qed
qed

lemma occurred_since_Cons:
  "occurred_since P p (e # t) =
     ((P p e \<and> clientSet (fst (astep p e)) \<noteq> [] \<and> stays_nonempty (fst (astep p e)) t)
      \<or> occurred_since P (fst (astep p e)) t)"
proof
  assume "occurred_since P p (e # t)"
  then obtain pre x post where
    t: "e # t = pre @ x # post" and px: "P (fst (arun p pre)) x"
    and n: "\<forall>q r. post = q @ r \<longrightarrow> clientSet (fst (arun p (pre @ x # q))) \<noteq> []"
    unfolding occurred_since_def by blast
  show "(P p e \<and> clientSet (fst (astep p e)) \<noteq> [] \<and> stays_nonempty (fst (astep p e)) t)
          \<or> occurred_since P (fst (astep p e)) t"
  proof (cases pre)
    case Nil
    with t have x: "x = e" and post: "post = t" by simp_all
    have "stays_nonempty p (e # t)"
      unfolding stays_nonempty_def
    proof (intro allI impI)
      fix q r
      assume h: "e # t = q @ r \<and> q \<noteq> []"
      then obtain q' where q: "q = e # q'" and "t = q' @ r" by (cases q) auto
      with n post x Nil show "clientSet (fst (arun p q)) \<noteq> []" by simp
    qed
    with px x Nil show ?thesis by (simp add: stays_nonempty_Cons)
  next
    case (Cons y pre')
    with t have y: "y = e" and t': "t = pre' @ x # post" by simp_all
    have "\<forall>q r. post = q @ r \<longrightarrow> clientSet (fst (arun (fst (astep p e)) (pre' @ x # q))) \<noteq> []"
      using n Cons y by (simp add: case_prod_beta)
    moreover have "P (fst (arun (fst (astep p e)) pre')) x"
      using px Cons y by (simp add: case_prod_beta)
    ultimately have "occurred_since P (fst (astep p e)) t"
      using t' unfolding occurred_since_def by blast
    then show ?thesis ..
  qed
next
  assume "(P p e \<and> clientSet (fst (astep p e)) \<noteq> [] \<and> stays_nonempty (fst (astep p e)) t)
            \<or> occurred_since P (fst (astep p e)) t"
  then show "occurred_since P p (e # t)"
  proof
    assume a: "P p e \<and> clientSet (fst (astep p e)) \<noteq> [] \<and> stays_nonempty (fst (astep p e)) t"
    then have sn: "stays_nonempty p (e # t)" by (simp add: stays_nonempty_Cons)
    have "\<forall>q r. t = q @ r \<longrightarrow> clientSet (fst (arun p ([] @ e # q))) \<noteq> []"
    proof (intro allI impI)
      fix q r
      assume "t = q @ r"
      then have "e # t = (e # q) @ r \<and> e # q \<noteq> []" by simp
      from sn [unfolded stays_nonempty_def, rule_format, OF this]
      show "clientSet (fst (arun p ([] @ e # q))) \<noteq> []" by simp
    qed
    moreover have "e # t = [] @ e # t" by simp
    moreover have "P (fst (arun p [])) e" using a by simp
    ultimately show ?thesis unfolding occurred_since_def by blast
  next
    assume "occurred_since P (fst (astep p e)) t"
    then obtain pre x post where
      t: "t = pre @ x # post" and px: "P (fst (arun (fst (astep p e)) pre)) x"
      and n: "\<forall>q r. post = q @ r \<longrightarrow> clientSet (fst (arun (fst (astep p e)) (pre @ x # q))) \<noteq> []"
      unfolding occurred_since_def by blast
    have "e # t = (e # pre) @ x # post" using t by simp
    moreover have "\<forall>q r. post = q @ r \<longrightarrow> clientSet (fst (arun p ((e # pre) @ x # q))) \<noteq> []"
      using n by (simp add: case_prod_beta)
    moreover have "P (fst (arun p (e # pre))) x"
      using px by (simp add: case_prod_beta)
    ultimately show ?thesis unfolding occurred_since_def by blast
  qed
qed

lemma since_nonempty_meaning:
  "since_nonempty P p b t = ((b \<and> stays_nonempty p t) \<or> occurred_since P p t)"
proof (induction t arbitrary: p b)
  case Nil
  show ?case by (simp add: stays_nonempty_def occurred_since_def)
next
  case (Cons e t)
  show ?case
    unfolding since_nonempty.simps Let_def Cons.IH stays_nonempty_Cons occurred_since_Cons
    by blast
qed

lemma since_nonempty_started:
  "since_nonempty P started False t = occurred_since P started t"
  by (simp add: since_nonempty_meaning)

lemmas async_defs = message_begin_def handleCommand_begin_def handleLogin_begin_def
  ensure_adapter_def login_begin_def login_resume_def sendMessage_begin_def
  sendMessage_resume_def close_handler_def server_of_def started_def holds_handle_def
  logged_in_def is_login_frame_def

text \<open>
  Claim C2, as the code has it. Along every sequence of connections, frames, closes,
  socket errors and settlings of calls of the vendor that can happen, in any
  interleaving: the server holds at most one adapter, and every other adapter that was
  built has had \<open>disconnect()\<close> called on it; the adapter the server holds is
  disconnected and released exactly by the step that empties a non-empty client set,
  and by no other; the server holds an adapter if and only if the client set is not
  empty and a login command has been received since the set last became non-empty,
  whatever became of that login; and the adapter the server holds has a handle of the
  vendor if and only if the client set is not empty and a login has resolved on it
  since the set last became non-empty. Nothing is said of a login that settles after
  its adapter has been released.
\<close>

theorem session_lifecycle:
  assumes "admissible started t" and "arun started t = (p, effs)"
  shows "count_list effs NewZaloClient = count_list effs Disconnect + live p
         \<and> live p \<le> 1
         \<and> ((zaloRef p \<noteq> None) = (clientSet p \<noteq> [] \<and> occurred_since login_received started t))
         \<and> (holds_handle p = (clientSet p \<noteq> [] \<and> occurred_since login_resolved started t))
         \<and> (\<forall>e. enabled p e \<longrightarrow>
              ((Disconnect \<in> set (snd (astep p e)))
                 = (zaloRef p \<noteq> None \<and> clientSet p \<noteq> [] \<and> clientSet (fst (astep p e)) = []))
              \<and> count_list (snd (astep p e)) Disconnect \<le> 1
              \<and> (clientSet (fst (astep p e)) = [] \<longrightarrow> zaloRef (fst (astep p e)) = None))"
proof -
  have p: "p = fst (arun started t)" and effs: "effs = snd (arun started t)"
    using assms(2) by simp_all
  have init: "(zaloRef started \<noteq> None) = False" "holds_handle started = False"
    "False \<longrightarrow> clientSet started \<noteq> []" "zaloRef started \<noteq> None \<longrightarrow> clientSet started \<noteq> []"
    by (simp_all add: started_def holds_handle_eq)
  have a: "(zaloRef p \<noteq> None) = since_nonempty login_received started False t"
    and n: "zaloRef p \<noteq> None \<longrightarrow> clientSet p \<noteq> []"
    using arun_inv_adapter [OF assms(1) init(1) init(3)] unfolding p by simp_all
  have l: "holds_handle p = since_nonempty login_resolved started False t"
    using arun_inv_handle [OF assms(1) init(2) init(4)] unfolding p by simp
  have ln: "holds_handle p \<longrightarrow> clientSet p \<noteq> []"
    using n by (auto simp: holds_handle_eq split: option.splits)
  have 1: "count_list effs NewZaloClient = count_list effs Disconnect + live p"
    using arun_live [of started t] unfolding p effs by (simp add: live_def started_def)
  have 2: "live p \<le> 1" by (simp add: live_def)
  have 3: "(zaloRef p \<noteq> None) = (clientSet p \<noteq> [] \<and> occurred_since login_received started t)"
    using a n unfolding since_nonempty_started by blast
  have 4: "holds_handle p = (clientSet p \<noteq> [] \<and> occurred_since login_resolved started t)"
    using l ln unfolding since_nonempty_started by blast
  have 5: "\<forall>e. enabled p e \<longrightarrow>
              ((Disconnect \<in> set (snd (astep p e)))
                 = (zaloRef p \<noteq> None \<and> clientSet p \<noteq> [] \<and> clientSet (fst (astep p e)) = []))
              \<and> count_list (snd (astep p e)) Disconnect \<le> 1
              \<and> (clientSet (fst (astep p e)) = [] \<longrightarrow> zaloRef (fst (astep p e)) = None)"
  proof (intro allI impI conjI)
    fix e
    assume en: "enabled p e"
    show "(Disconnect \<in> set (snd (astep p e)))
            = (zaloRef p \<noteq> None \<and> clientSet p \<noteq> [] \<and> clientSet (fst (astep p e)) = [])"
      by (rule astep_teardown [OF n])
    show "count_list (snd (astep p e)) Disconnect \<le> 1"
      unfolding astep_disconnect by (cases e) simp_all
    assume "clientSet (fst (astep p e)) = []"
    with astep_inv_nonempty [OF en n] show "zaloRef (fst (astep p e)) = None" by blast
  qed
  from 1 2 3 4 5 show ?thesis by blast
qed

theorem session_lifecycle_witness:
  "admissible started [AConnection 1, AFrame 1 (Parsed login_cmd), AConnection 2,
                       ASettle 0 (Resolve 7), AClose 1]
   \<and> zaloRef (fst (arun started [AConnection 1, AFrame 1 (Parsed login_cmd), AConnection 2,
                       ASettle 0 (Resolve 7), AClose 1])) = Some 0
   \<and> heap (fst (arun started [AConnection 1, AFrame 1 (Parsed login_cmd), AConnection 2,
                       ASettle 0 (Resolve 7), AClose 1])) 0
       = \<lparr> zalo = Some \<lparr> selfListen = False, checkUpdate = False, logging = True \<rparr>, api = Some 7 \<rparr>
   \<and> clientSet (fst (arun started [AConnection 1, AFrame 1 (Parsed login_cmd), AConnection 2,
                       ASettle 0 (Resolve 7), AClose 1])) = [2]
   \<and> count_list (snd (arun started [AConnection 1, AFrame 1 (Parsed login_cmd), AConnection 2,
                       ASettle 0 (Resolve 7), AClose 1])) NewZaloClient = 1
   \<and> count_list (snd (arun started [AConnection 1, AFrame 1 (Parsed login_cmd), AConnection 2,
                       ASettle 0 (Resolve 7), AClose 1])) Disconnect = 0
   \<and> occurred_since login_received started
        [AConnection 1, AFrame 1 (Parsed login_cmd), AConnection 2, ASettle 0 (Resolve 7), AClose 1]
   \<and> occurred_since login_resolved started
        [AConnection 1, AFrame 1 (Parsed login_cmd), AConnection 2, ASettle 0 (Resolve 7), AClose 1]
   \<and> snd (astep (fst (arun started [AConnection 1, AFrame 1 (Parsed login_cmd), AConnection 2,
                       ASettle 0 (Resolve 7), AClose 1])) (AClose 2))
       = [Disconnect, ListenerStop 7, OnStatus ''disconnected'']
   \<and> zaloRef (fst (astep (fst (arun started [AConnection 1, AFrame 1 (Parsed login_cmd), AConnection 2,
                       ASettle 0 (Resolve 7), AClose 1])) (AClose 2))) = None"
proof -
  let ?t = "[AConnection 1, AFrame 1 (Parsed login_cmd), AConnection 2, ASettle 0 (Resolve 7), AClose 1]"
  have ad: "admissible started ?t"
    by (simp add: async_defs handler_defs)
  have r: "arun started ?t = (fst (arun started ?t), snd (arun started ?t))"
    by simp
  show ?thesis
    using ad session_lifecycle [OF ad r]
    unfolding since_nonempty_started [symmetric]
    by (simp add: async_defs handler_defs)
qed

text \<open>
  Against claim C2 as it was stated, twice. First: a client connects and sends a login
  command, and the vendor rejects the login; no login has succeeded, and yet the server
  holds an adapter. Second: a client connects, sends a login command and closes while
  the login is pending; the \<open>close\<close> handler disconnects and releases the adapter, which
  has no handle yet, and then the login resolves on the released adapter: it stores the
  handle, starts the listener and answers the closed socket. The client set is empty
  and the server holds no adapter, and yet a session exists that nothing will stop:
  a client that connects later is sent the messages of that listener without any login,
  and when it logs in, a second adapter is built and two listeners run.
\<close>

theorem session_claim_fails:
  "admissible started [AConnection 1, AFrame 1 (Parsed login_cmd), ASettle 0 (Reject ''bad cookie'')]
   \<and> clientSet (fst (arun started [AConnection 1, AFrame 1 (Parsed login_cmd),
                                    ASettle 0 (Reject ''bad cookie'')])) = [1]
   \<and> zaloRef (fst (arun started [AConnection 1, AFrame 1 (Parsed login_cmd),
                                  ASettle 0 (Reject ''bad cookie'')])) = Some 0
   \<and> \<not> occurred_since login_resolved started
          [AConnection 1, AFrame 1 (Parsed login_cmd), ASettle 0 (Reject ''bad cookie'')]
   \<and> admissible started [AConnection 1, AFrame 1 (Parsed login_cmd), AClose 1, ASettle 0 (Resolve 7)]
   \<and> snd (arun started [AConnection 1, AFrame 1 (Parsed login_cmd), AClose 1, ASettle 0 (Resolve 7)])
       = [NewZaloClient,
          VendorLogin \<lparr> cookie = JArr [], imei = JStr ''i1'', userAgent = JStr ''ua'' \<rparr>,
          Disconnect, OnStatus ''disconnected'',
          OnStatus ''connected'', ListenerOn 7 ''message'', ListenerOn 7 ''error'', ListenerStart 7,
          WsSend 1 (LoginEvent True None)]
   \<and> clientSet (fst (arun started [AConnection 1, AFrame 1 (Parsed login_cmd), AClose 1,
                                    ASettle 0 (Resolve 7)])) = []
   \<and> zaloRef (fst (arun started [AConnection 1, AFrame 1 (Parsed login_cmd), AClose 1,
                                  ASettle 0 (Resolve 7)])) = None
   \<and> heap (fst (arun started [AConnection 1, AFrame 1 (Parsed login_cmd), AClose 1,
                               ASettle 0 (Resolve 7)])) 0 = \<lparr> zalo = None, api = Some 7 \<rparr>
   \<and> listeners (fst (arun started [AConnection 1, AFrame 1 (Parsed login_cmd), AClose 1,
                                    ASettle 0 (Resolve 7)])) = [7]
   \<and> snd (astep (fst (arun started [AConnection 1, AFrame 1 (Parsed login_cmd), AClose 1,
                                     ASettle 0 (Resolve 7), AConnection 2]))
            (AListenerMessage 7 1700000000500 text_event))
       = [OnMessage \<lparr> senderId = JStr ''8001'', threadId = JStr ''g42'', content = Text ''hello'',
                      messageId = JStr ''m1'', timestamp = Fin 1700000000000, isGroup = True \<rparr>,
          WsSend 2 (MessageEvent \<lparr> senderId = JStr ''8001'', threadId = JStr ''g42'',
                      content = Text ''hello'', messageId = JStr ''m1'',
                      timestamp = Fin 1700000000000, isGroup = True \<rparr>)]
   \<and> listeners (fst (arun started [AConnection 1, AFrame 1 (Parsed login_cmd), AClose 1,
                                    ASettle 0 (Resolve 7), AConnection 2,
                                    AFrame 2 (Parsed login_cmd), ASettle 0 (Resolve 8)])) = [7, 8]"
  unfolding since_nonempty_started [symmetric]
  by (simp add: async_defs handler_defs adapter_defs timestamp_text)

end
